theory Spec2Isabelle
  imports Main
begin

section \<open>Python text primitives used by \<open>docs/scrape_help.py\<close>\<close>

text \<open>
  A Python \<open>str\<close> is a sequence of code points. The model writes it as a \<open>string\<close> and
  reads every \<open>char\<close> as one code point below 256, so \<open>length\<close> and indexing count what
  Python counts on such texts. The character classes below are the ones CPython uses for
  \<open>str.isspace\<close>, \<open>str.strip\<close>, \<open>str.split\<close>, the regular-expression class \<open>\s\<close> and
  \<open>str.splitlines\<close>, cut down to that range.
\<close>

definition is_space :: "char \<Rightarrow> bool" where
  "is_space c \<longleftrightarrow>
     c = CHR 0x09 \<or> c = CHR 0x0A \<or> c = CHR 0x0B \<or> c = CHR 0x0C \<or> c = CHR 0x0D \<or>
     c = CHR 0x1C \<or> c = CHR 0x1D \<or> c = CHR 0x1E \<or> c = CHR 0x1F \<or> c = CHR 0x20 \<or>
     c = CHR 0x85 \<or> c = CHR 0xA0"

definition is_linebreak :: "char \<Rightarrow> bool" where
  "is_linebreak c \<longleftrightarrow>
     c = CHR 0x0A \<or> c = CHR 0x0B \<or> c = CHR 0x0C \<or> c = CHR 0x0D \<or>
     c = CHR 0x1C \<or> c = CHR 0x1D \<or> c = CHR 0x1E \<or> c = CHR 0x85"

text \<open>\<open>s.strip()\<close>: leading and trailing whitespace removed.\<close>

definition strip :: "string \<Rightarrow> string" where
  "strip s = rev (dropWhile is_space (rev (dropWhile is_space s)))"

text \<open>
  \<open>s.split()\<close>: the maximal runs of non-whitespace characters, in order. \<open>cur\<close> is the run
  being read.
\<close>

fun split_run :: "string \<Rightarrow> string \<Rightarrow> string list" where
  "split_run cur [] = (if cur = [] then [] else [cur])"
| "split_run cur (c # cs) =
     (if is_space c then (if cur = [] then split_run [] cs else cur # split_run [] cs)
      else split_run (cur @ [c]) cs)"

definition split :: "string \<Rightarrow> string list" where
  "split s = split_run [] s"

text \<open>
  \<open>s.split(sep)\<close> for a one-character separator: every occurrence of the separator cuts,
  empty pieces are kept, and the empty text gives one empty piece.
\<close>

fun split_sep :: "char \<Rightarrow> string \<Rightarrow> string list" where
  "split_sep sep [] = [[]]"
| "split_sep sep (c # cs) =
     (if c = sep then [] # split_sep sep cs
      else (case split_sep sep cs of
              [] \<Rightarrow> [[c]]
            | w # ws \<Rightarrow> (c # w) # ws))"

text \<open>
  \<open>s.splitlines()\<close>: the text is cut at every line boundary, \<open>\r\n\<close> counting as one; the
  boundaries are dropped, and a last line without a boundary is kept when it is not empty.
\<close>

fun splitlines_run :: "string \<Rightarrow> string \<Rightarrow> string list" where
  "splitlines_run cur [] = (if cur = [] then [] else [cur])"
| "splitlines_run cur (c # cs) =
     (if is_linebreak c then
        (case cs of
           [] \<Rightarrow> [cur]
         | d # ds \<Rightarrow>
             if c = CHR 0x0D \<and> d = CHR 0x0A then cur # splitlines_run [] ds
             else cur # splitlines_run [] (d # ds))
      else splitlines_run (cur @ [c]) cs)"

definition splitlines :: "string \<Rightarrow> string list" where
  "splitlines s = splitlines_run [] s"

text \<open>
  \<open>s.replace(old, new)\<close>: scanning from the left, every occurrence of \<open>old\<close> that does not
  overlap an earlier replaced one is replaced by \<open>new\<close>. With an empty \<open>old\<close> Python puts
  \<open>new\<close> before every character and at the end.
\<close>

function replace :: "string \<Rightarrow> string \<Rightarrow> string \<Rightarrow> string" where
  "replace old new [] = (if old = [] then new else [])"
| "replace old new (c # cs) =
     (if old = [] then new @ c # replace old new cs
      else if take (length old) (c # cs) = old
           then new @ replace old new (drop (length old) (c # cs))
      else c # replace old new cs)"
  by pat_completeness auto
termination
  by (relation "measure (\<lambda>(old, new, s). length s)") auto

text \<open>\<open>sep.join(xs)\<close>.\<close>

fun join_str :: "string \<Rightarrow> string list \<Rightarrow> string" where
  "join_str sep [] = []"
| "join_str sep [x] = x"
| "join_str sep (x # y # ys) = x @ sep @ join_str sep (y # ys)"

text \<open>
  \<open>os.path.join(a, b)\<close> on a POSIX system: an absolute \<open>b\<close> replaces \<open>a\<close>; otherwise the
  two are put together with one separator between them.
\<close>

definition path_join :: "string \<Rightarrow> string \<Rightarrow> string" where
  "path_join a b =
     (if b \<noteq> [] \<and> hd b = CHR ''/'' then b
      else if a = [] \<or> last a = CHR ''/'' then a @ b
      else a @ ''/'' @ b)"


section \<open>Errors, the outside world and the state of the script\<close>

text \<open>
  Every exception the script can raise is a value. \<open>IndexError\<close> carries Python's message
  (\<open>string index out of range\<close> for \<open>line[4]\<close>, \<open>list index out of range\<close> for
  \<open>line.split()[0]\<close>), \<open>CalledProcessError\<close> the command line and the exit code that
  \<open>subprocess.check_output\<close> reports, \<open>SystemExit\<close> the message given to \<open>sys.exit\<close>,
  \<open>FileNotFoundError\<close> the program or the path that was not found.
\<close>

datatype error =
    IndexError string
  | ValueError string
  | CalledProcessError "string list" int
  | SystemExit string
  | JSONError
  | FileNotFoundError string
  | UnicodeDecodeError

text \<open>
  What a program that was started did: its exit code and what it wrote, in the order of
  the writes, each write on stdout or on stderr. The bytes of a write are given by their
  text when they are valid UTF-8. A pipe that takes some of the streams gets their
  writes in that order: with \<open>stderr=STDOUT\<close> the stdout pipe takes both.
\<close>

datatype stream = Stdout | Stderr

datatype data = Utf8 string | NotUtf8

record proc_result =
  returncode :: int
  writes :: "(stream \<times> data) list"

definition piped :: "stream list \<Rightarrow> proc_result \<Rightarrow> data list" where
  "piped streams p = map snd (filter (\<lambda>w. fst w \<in> set streams) (writes p))"

text \<open>\<open>b.decode("utf-8")\<close> on the bytes a pipe got: it raises when some are not UTF-8.\<close>

fun decode :: "data list \<Rightarrow> error + string" where
  "decode [] = Inr []"
| "decode (Utf8 s # bs) = (case decode bs of Inl err \<Rightarrow> Inl err | Inr t \<Rightarrow> Inr (s @ t))"
| "decode (NotUtf8 # bs) = Inl UnicodeDecodeError"

text \<open>The five values \<open>man_replacements\<close> reads out of \<open>conda info --json\<close>.\<close>

record conda_info =
  default_prefix :: string
  envs_dirs :: "string list"
  user_rc_path :: string
  sys_rc_path :: string
  root_prefix :: string

text \<open>
  The environment of one run. \<open>exec\<close> answers an invocation: it is given the command lines
  of all invocations so far and the command line to run now, so the same command may
  answer differently each time. Its answer is the exception \<open>Popen\<close> raises when the
  program cannot be started (\<open>FileNotFoundError\<close> when it is not found), or what the
  program did. \<open>json_info\<close> stands for \<open>json.loads\<close> followed by the five key lookups;
  \<open>here\<close> is \<open>dirname(__file__)\<close>, \<open>pathsep\<close> is \<open>os.pathsep\<close> and \<open>abspath\<close> is
  \<open>os.path.abspath\<close>.
\<close>

record env =
  exec :: "string list list \<Rightarrow> string list \<Rightarrow> error + proc_result"
  json_info :: "string \<Rightarrow> error + conda_info"
  here :: string
  pathsep :: string
  abspath :: "string \<Rightarrow> string"

text \<open>
  A printed line. The two diagnostics of \<open>run_command\<close> format the command line with
  \<open>repr\<close> and \<open>shlex.quote\<close>; the model keeps the command line and the exit code or the
  stderr text instead of the formatted line.
\<close>

datatype message =
    Text string
  | FailedWithCode "string list" int
  | GaveStderr "string list" string

text \<open>
  The state the script changes: the command lines of the invocations so far, what the
  script printed on standard output and on the error stream, the files written (path and
  content, oldest first) and the list that is the default argument \<open>cache\<close> of
  \<open>conda_help\<close>. A write is taken where the directory of the path exists.
\<close>

record state =
  calls :: "string list list"
  out_stream :: "message list"
  err_stream :: "message list"
  files :: "(string \<times> string) list"
  help_cache :: "string list"

definition print_out :: "message \<Rightarrow> state \<Rightarrow> state" where
  "print_out m st = st\<lparr>out_stream := out_stream st @ [m]\<rparr>"

definition print_err :: "message \<Rightarrow> state \<Rightarrow> state" where
  "print_err m st = st\<lparr>err_stream := err_stream st @ [m]\<rparr>"

definition write_file :: "string \<Rightarrow> string \<Rightarrow> state \<Rightarrow> state" where
  "write_file path content st = st\<lparr>files := files st @ [(path, content)]\<rparr>"

text \<open>Reading a file gives what was written to the path last.\<close>

definition read_file :: "string \<Rightarrow> state \<Rightarrow> error + string" where
  "read_file path st =
     (case map_of (rev (files st)) path of
        None \<Rightarrow> Inl (FileNotFoundError path)
      | Some content \<Rightarrow> Inr content)"

definition manpath :: "env \<Rightarrow> string" where
  "manpath e = path_join (path_join (here e) ''build'') ''man''"

definition rstpath :: "env \<Rightarrow> string" where
  "rstpath e = path_join (path_join (here e) ''source'') ''commands''"

definition RST_HEADER :: "string \<Rightarrow> string" where
  "RST_HEADER command =
     [CHR 0x0A] @ ''.. _'' @ command @ ''_ref:'' @ [CHR 0x0A] @
     [CHR 0x0A] @
     ''conda '' @ command @ [CHR 0x0A] @
     ''======================='' @ [CHR 0x0A] @
     [CHR 0x0A] @
     ''.. raw:: html'' @ [CHR 0x0A] @
     [CHR 0x0A]"

section \<open>Running programs\<close>

text \<open>
  \<open>run_command(args, include_stderr=...)\<close>. \<open>Popen\<close> may raise. With \<open>include_stderr\<close>
  the stderr of the program goes into its stdout pipe and \<open>communicate\<close> gives \<open>None\<close> for
  \<open>err\<close>, which the function turns into the empty bytes. Then \<open>out\<close> is decoded, then
  \<open>err\<close>, and either may raise; the diagnostics come after that.
\<close>

definition run_command ::
  "env \<Rightarrow> string list \<Rightarrow> bool \<Rightarrow> state \<Rightarrow> (error + string) \<times> state" where
  "run_command e args include_stderr st =
     (let st1 = st\<lparr>calls := calls st @ [args]\<rparr>
      in case exec e (calls st) args of
           Inl raised \<Rightarrow> (Inl raised, st1)
         | Inr p \<Rightarrow>
             (let out = piped (if include_stderr then [Stdout, Stderr] else [Stdout]) p;
                  err0 = (if include_stderr then None else Some (piped [Stderr] p));
                  err = (case err0 of None \<Rightarrow> [] | Some b \<Rightarrow> b)
              in case decode out of
                   Inl raised \<Rightarrow> (Inl raised, st1)
                 | Inr out' \<Rightarrow>
                     (case decode err of
                        Inl raised \<Rightarrow> (Inl raised, st1)
                      | Inr err' \<Rightarrow>
                          (Inr out',
                           if returncode p \<noteq> 0
                           then print_err (FailedWithCode args (returncode p)) st1
                           else if err' \<noteq> [] then print_out (GaveStderr args err') st1
                           else st1))))"

text \<open>
  \<open>str_check_output(args)\<close>: \<open>check_output\<close> raises when the program cannot be started
  and when its exit code is not 0; it takes the stdout of the program only, which is then
  decoded.
\<close>

definition str_check_output :: "env \<Rightarrow> string list \<Rightarrow> state \<Rightarrow> (error + string) \<times> state" where
  "str_check_output e args st =
     (let st1 = st\<lparr>calls := calls st @ [args]\<rparr>
      in case exec e (calls st) args of
           Inl raised \<Rightarrow> (Inl raised, st1)
         | Inr p \<Rightarrow>
             if returncode p \<noteq> 0 then (Inl (CalledProcessError args (returncode p)), st1)
             else (case decode (piped [Stdout] p) of
                     Inl raised \<Rightarrow> (Inl raised, st1)
                   | Inr out \<Rightarrow> (Inr out, st1)))"

definition conda_help :: "env \<Rightarrow> state \<Rightarrow> (error + string) \<times> state" where
  "conda_help e st =
     (if help_cache st \<noteq> [] then (Inr (hd (help_cache st)), st)
      else (case str_check_output e [''conda'', ''--help''] st of
              (Inl err, st1) \<Rightarrow> (Inl err, st1)
            | (Inr h, st1) \<Rightarrow>
                (let st2 = st1\<lparr>help_cache := help_cache st1 @ [h]\<rparr>
                 in (Inr (hd (help_cache st2)), st2))))"

definition conda_command_help :: "env \<Rightarrow> string \<Rightarrow> state \<Rightarrow> (error + string) \<times> state" where
  "conda_command_help e command st =
     str_check_output e ([''conda''] @ split command @ [''--help'']) st"

section \<open>Command discovery\<close>

text \<open>
  The loop over the lines of the top-level help in \<open>conda_commands\<close> and in
  \<open>external_commands\<close>. The two loops are the same text but for the header they wait for
  (\<open>command\<close> and \<open>other commands:\<close>), which is the parameter \<open>header\<close> here. \<open>start\<close> and
  \<open>commands\<close> are the loop's variables; \<open>break\<close> ends the loop with the commands found,
  and the two index expressions raise where Python raises.
\<close>

fun scan_section :: "string \<Rightarrow> bool \<Rightarrow> string list \<Rightarrow> string list \<Rightarrow> error + string list" where
  "scan_section header start commands [] = Inr commands"
| "scan_section header start commands (line # rest) =
     (if strip line = header then scan_section header True commands rest
      else if start then
        (if line = [] then Inr commands
         else if length line \<le> 4 then Inl (IndexError ''string index out of range'')
         else if line ! 4 \<noteq> CHR '' '' then
           (case split line of
              [] \<Rightarrow> Inl (IndexError ''list index out of range'')
            | w # ws \<Rightarrow> scan_section header True (commands @ [w]) rest)
         else scan_section header True commands rest)
      else scan_section header False commands rest)"

definition conda_commands :: "env \<Rightarrow> state \<Rightarrow> (error + string list) \<times> state" where
  "conda_commands e st =
     (let st1 = print_out (Text ''Getting list of core commands'') st
      in case conda_help e st1 of
           (Inl err, st2) \<Rightarrow> (Inl err, st2)
         | (Inr help, st2) \<Rightarrow> (scan_section ''command'' False [] (splitlines help), st2))"

text \<open>
  \<open>re.compile(r"\s*\{(.*)\}\s*").match(line)\<close>, giving group 1. The leading \<open>\s*\<close> takes
  all leading whitespace (giving some back never helps, the next character must be the
  brace); the greedy \<open>.*\<close> runs over characters other than the newline and gives back
  until a closing brace follows, so the group ends before the last closing brace it can
  reach; the trailing \<open>\s*\<close> always matches, and \<open>match\<close> does not ask for the end of the
  line.
\<close>

definition subcommands_re :: "string \<Rightarrow> string option" where
  "subcommands_re line =
     (case dropWhile is_space line of
        [] \<Rightarrow> None
      | c # s \<Rightarrow>
          if c \<noteq> CHR ''{'' then None
          else (let dot = takeWhile (\<lambda>x. x \<noteq> CHR 0x0A) s
                in if CHR ''}'' \<in> set dot
                   then Some (rev (tl (dropWhile (\<lambda>x. x \<noteq> CHR ''}'') (rev dot))))
                   else None))"

text \<open>
  The loop over the lines of one command's help in \<open>external_commands\<close>; the value is the
  list given to \<open>commands.extend\<close>, empty when the loop ends without extending.
\<close>

fun subcommand_entries :: "string \<Rightarrow> bool \<Rightarrow> string list \<Rightarrow> string list" where
  "subcommand_entries command start [] = []"
| "subcommand_entries command start (line # rest) =
     (if strip line = ''positional arguments:'' then subcommand_entries command True rest
      else if start then
        (case subcommands_re line of
           Some g \<Rightarrow> map (\<lambda>i. command @ '' '' @ i) (split_sep CHR '','' g)
         | None \<Rightarrow> [])
      else subcommand_entries command False rest)"

text \<open>
  A \<open>dict\<close> as an association list in insertion order: storing under a key that is there
  keeps its place and replaces its value.
\<close>

definition dict_set :: "('k \<times> 'v) list \<Rightarrow> 'k \<Rightarrow> 'v \<Rightarrow> ('k \<times> 'v) list" where
  "dict_set d k v =
     (if k \<in> fst ` set d then map (\<lambda>(k', v'). if k' = k then (k', v) else (k', v')) d
      else d @ [(k, v)])"

text \<open>
  The worker pool of \<open>external_commands\<close> runs \<open>get_help\<close> once for every position of
  \<open>commands\<close>, each call in a thread of its own. The model runs the calls one after
  another in the order \<open>order\<close> (positions of \<open>commands\<close>), which stands for the order in
  which the threads get to run; it decides the order of the keys of \<open>command_help\<close>. A
  call that raises leaves its exception with its position.
\<close>

fun get_help_all ::
  "env \<Rightarrow> string list \<Rightarrow> nat list \<Rightarrow> (string \<times> string) list \<Rightarrow> (nat \<times> error) list \<Rightarrow> state \<Rightarrow>
     (string \<times> string) list \<times> (nat \<times> error) list \<times> state" where
  "get_help_all e commands [] command_help raised st = (command_help, raised, st)"
| "get_help_all e commands (i # order) command_help raised st =
     (if i < length commands then
        (let command = commands ! i
         in case conda_command_help e command st of
              (Inl err, st1) \<Rightarrow> get_help_all e commands order command_help (raised @ [(i, err)]) st1
            | (Inr h, st1) \<Rightarrow>
                get_help_all e commands order (dict_set command_help command h) raised
                  (print_out (Text (''Checked for subcommand help for '' @ command)) st1))
      else get_help_all e commands order command_help raised st)"

text \<open>
  \<open>list(executor.map(...))\<close> reads the results in the order of submission and raises the
  exception of the first call that raised.
\<close>

definition first_raised :: "(nat \<times> error) list \<Rightarrow> nat \<Rightarrow> error option" where
  "first_raised raised n =
     (case filter (\<lambda>i. map_of raised i \<noteq> None) [0..<n] of
        [] \<Rightarrow> None
      | i # _ \<Rightarrow> map_of raised i)"

fun extend_all :: "(string \<times> string) list \<Rightarrow> string list \<Rightarrow> string list" where
  "extend_all [] commands = commands"
| "extend_all ((command, help) # command_help) commands =
     extend_all command_help (commands @ subcommand_entries command False (splitlines help))"

definition external_commands ::
  "env \<Rightarrow> nat list \<Rightarrow> state \<Rightarrow> (error + string list) \<times> state" where
  "external_commands e order st =
     (let st1 = print_out (Text ''Getting list of external commands'') st
      in case conda_help e st1 of
           (Inl err, st2) \<Rightarrow> (Inl err, st2)
         | (Inr help, st2) \<Rightarrow>
             (case scan_section ''other commands:'' False [] (splitlines help) of
                Inl err \<Rightarrow> (Inl err, st2)
              | Inr commands \<Rightarrow>
                  (let st3 = print_out (Text ''Getting list of external subcommands'') st2
                   in if length commands = 0
                      then (Inl (ValueError ''max_workers must be greater than 0''), st3)
                      else (case get_help_all e commands order [] [] st3 of
                              (command_help, raised, st4) \<Rightarrow>
                                (case first_raised raised (length commands) of
                                   Some err \<Rightarrow> (Inl err, st4)
                                 | None \<Rightarrow> (Inr (extend_all command_help commands), st4))))))"


section \<open>Manual pages\<close>

text \<open>
  \<open>OrderedDict(pairs)\<close>: the pairs are stored one after another; a key that comes again
  keeps its first place and takes the later value. Iterating gives the keys in order.
\<close>

definition OrderedDict :: "('k \<times> 'v) list \<Rightarrow> ('k \<times> 'v) list" where
  "OrderedDict pairs = fold (\<lambda>(k, v) d. dict_set d k v) pairs []"

definition man_replacements :: "env \<Rightarrow> state \<Rightarrow> (error + (string \<times> string) list) \<times> state" where
  "man_replacements e st =
     (case str_check_output e [''conda'', ''info'', ''--json''] st of
        (Inl err, st1) \<Rightarrow> (Inl err, st1)
      | (Inr text, st1) \<Rightarrow>
          (case json_info e text of
             Inl err \<Rightarrow> (Inl err, st1)
           | Inr info \<Rightarrow>
               (Inr (OrderedDict
                  [(default_prefix info, ''default prefix''),
                   (join_str (pathsep e) (envs_dirs info), ''envs dirs''),
                   (user_rc_path info,
                      [CHR 0x5C] @ ''fI'' @ [CHR 0x5C] @ '',user .condarc path'' @
                      [CHR 0x5C] @ ''/'' @ [CHR 0x5C] @ ''fP''),
                   (sys_rc_path info,
                      [CHR 0x5C] @ ''fI'' @ [CHR 0x5C] @ '',system .condarc path'' @
                      [CHR 0x5C] @ ''/'' @ [CHR 0x5C] @ ''fP''),
                   (root_prefix info, ''root prefix'')]), st1)))"

definition help2man_args :: "string \<Rightarrow> string \<Rightarrow> string list" where
  "help2man_args command conda_version =
     [''help2man'', ''--name'', ''conda '' @ command, ''--section'', ''1'',
      ''--source'', ''Anaconda, Inc.'', ''--version-string'', conda_version,
      ''--no-info'', ''conda '' @ command]"

text \<open>
  The loop \<open>while not manpage and retries\<close> of \<open>generate_man\<close>, with its two variables.
\<close>

fun man_loop ::
  "env \<Rightarrow> string \<Rightarrow> string \<Rightarrow> string \<Rightarrow> nat \<Rightarrow> state \<Rightarrow> (error + string) \<times> state" where
  "man_loop e command conda_version manpage 0 st = (Inr manpage, st)"
| "man_loop e command conda_version manpage (Suc retries) st =
     (if manpage = [] then
        (case run_command e (help2man_args command conda_version) False st of
           (Inl raised, st1) \<Rightarrow> (Inl raised, st1)
         | (Inr manpage', st1) \<Rightarrow> man_loop e command conda_version manpage' retries st1)
      else (Inr manpage, st))"

text \<open>The loop \<open>for text in replacements: manpage = manpage.replace(...)\<close>.\<close>

fun apply_replacements :: "(string \<times> string) list \<Rightarrow> string \<Rightarrow> string" where
  "apply_replacements [] manpage = manpage"
| "apply_replacements ((text, new) # replacements) manpage =
     apply_replacements replacements (replace text new manpage)"

definition command_file :: "string \<Rightarrow> string" where
  "command_file command = replace '' '' ''-'' command"

definition generate_man :: "env \<Rightarrow> string \<Rightarrow> state \<Rightarrow> (error + unit) \<times> state" where
  "generate_man e command st =
     (case run_command e [''conda'', ''--version''] True st of
        (Inl raised, st1) \<Rightarrow> (Inl raised, st1)
      | (Inr conda_version, st1) \<Rightarrow>
          (case man_loop e command conda_version [] 5 st1 of
             (Inl raised, st2) \<Rightarrow> (Inl raised, st2)
           | (Inr manpage, st2) \<Rightarrow>
               if manpage = []
               then (Inl (SystemExit (''Error: Could not get help for conda '' @ command)), st2)
               else (case man_replacements e st2 of
                       (Inl err, st3) \<Rightarrow> (Inl err, st3)
                     | (Inr replacements, st3) \<Rightarrow>
                         (let manpage' = apply_replacements replacements manpage;
                              st4 = write_file
                                      (path_join (manpath e)
                                         (''conda-'' @ command_file command @ ''.1''))
                                      manpage' st3
                          in (Inr (),
                              print_out (Text (''Generated manpage for conda '' @ command)) st4)))))"

section \<open>HTML and documentation fragments\<close>

text \<open>
  \<open>generate_html\<close> starts \<open>man\<close> on the manual page (\<open>Popen\<close> may raise) and gives its
  output to \<open>man2html\<close>, which \<open>check_output\<close> runs; only the exit code of \<open>man2html\<close>
  is looked at. The script writes the bytes of the page as they are and \<open>write_rst\<close>
  decodes them when it reads the file; the model keeps the page as text from here on.
\<close>

definition generate_html :: "env \<Rightarrow> string \<Rightarrow> state \<Rightarrow> (error + unit) \<times> state" where
  "generate_html e command st =
     (let cf = command_file command;
          man = [''man'', abspath e (path_join (manpath e) (''conda-'' @ cf @ ''.1''))];
          st1 = st\<lparr>calls := calls st @ [man]\<rparr>
      in case exec e (calls st) man of
           Inl raised \<Rightarrow> (Inl raised, st1)
         | Inr started \<Rightarrow>
             (case str_check_output e
                     [''man2html'', ''-bare'', ''title'', ''conda-'' @ cf, ''-topm'', ''0'',
                      ''-botm'', ''0''] st1 of
                (Inl err, st2) \<Rightarrow> (Inl err, st2)
              | (Inr htmlpage, st2) \<Rightarrow>
                  (Inr (),
                   print_out (Text (''Generated html for conda '' @ command))
                     (write_file (path_join (manpath e) (''conda-'' @ cf @ ''.html''))
                        htmlpage st2))))"

text \<open>
  \<open>write_rst(command, sep=None)\<close>. \<open>rst_dir\<close> is the directory \<open>rp\<close> the fragment goes to:
  \<open>if sep\<close> holds for a text that is not empty.
\<close>

definition rst_dir :: "env \<Rightarrow> string option \<Rightarrow> string" where
  "rst_dir e sep =
     (case sep of
        None \<Rightarrow> rstpath e
      | Some s \<Rightarrow> if s \<noteq> [] then path_join (rstpath e) s else rstpath e)"

definition write_rst :: "env \<Rightarrow> string \<Rightarrow> string option \<Rightarrow> state \<Rightarrow> (error + unit) \<times> state" where
  "write_rst e command sep st =
     (let cf = command_file command
      in case read_file (path_join (manpath e) (''conda-'' @ cf @ ''.html'')) st of
           Inl err \<Rightarrow> (Inl err, st)
         | Inr html \<Rightarrow>
             (let rp = rst_dir e sep;
                  content = RST_HEADER command @
                            concat (map (\<lambda>line. ''   '' @ line @ [CHR 0x0A]) (splitlines html))
              in (Inr (),
                  print_out (Text (''Generated rst for conda '' @ command))
                    (write_file (path_join rp (''conda-'' @ cf @ ''.rst'')) content st))))"

section \<open>The run\<close>

definition core_commands :: "string list" where
  "core_commands = []"

definition build_commands :: "string list" where
  "build_commands =
     [''build'', ''convert'', ''develop'', ''index'', ''inspect'', ''inspect channels'',
      ''inspect linkages'', ''inspect objects'', ''metapackage'', ''render'', ''skeleton'',
      ''skeleton cpan'', ''skeleton cran'', ''skeleton luarocks'', ''skeleton pypi'']"

definition gen_command :: "env \<Rightarrow> string \<Rightarrow> state \<Rightarrow> (error + unit) \<times> state" where
  "gen_command e command st =
     (case generate_man e command st of
        (Inl err, st1) \<Rightarrow> (Inl err, st1)
      | (Inr u, st1) \<Rightarrow> generate_html e command st1)"

text \<open>
  The worker pool of \<open>main\<close> runs \<open>gen_command\<close> once for every command. The model runs the
  calls one after another in the order of submission, each to its end whether an earlier
  one raised or not; \<open>list(executor.map(...))\<close> then raises the exception of the first call
  in that order that raised. (The pool itself drops the calls it has not started when
  that exception is read, which can happen with more than ten commands; the two differ
  only on runs where a call raises.)
\<close>

fun gen_all :: "env \<Rightarrow> string list \<Rightarrow> state \<Rightarrow> error option \<times> state" where
  "gen_all e [] st = (None, st)"
| "gen_all e (command # commands) st =
     (case gen_command e command st of
        (r, st1) \<Rightarrow>
          (case gen_all e commands st1 of
             (later, st2) \<Rightarrow>
               ((case r of Inl err \<Rightarrow> Some err | Inr u \<Rightarrow> later), st2)))"

text \<open>
  The loop \<open>for command in [...]: write_rst(command)\<close> of \<open>main\<close>. The call gives no
  \<open>sep\<close>, which is then its default \<open>None\<close>.
\<close>

fun write_rst_all :: "env \<Rightarrow> string list \<Rightarrow> state \<Rightarrow> (error + unit) \<times> state" where
  "write_rst_all e [] st = (Inr (), st)"
| "write_rst_all e (command # commands) st =
     (case write_rst e command None st of
        (Inl err, st1) \<Rightarrow> (Inl err, st1)
      | (Inr u, st1) \<Rightarrow> write_rst_all e commands st1)"

text \<open>\<open>main\<close>; \<open>argv\<close> is \<open>sys.argv[1:]\<close>.\<close>

definition main_commands :: "string list \<Rightarrow> string list" where
  "main_commands argv = (if argv \<noteq> [] then argv else core_commands @ build_commands)"

definition main :: "env \<Rightarrow> string list \<Rightarrow> state \<Rightarrow> (error + unit) \<times> state" where
  "main e argv st =
     (let commands = main_commands argv
      in case gen_all e commands st of
           (Some err, st1) \<Rightarrow> (Inl err, st1)
         | (None, st1) \<Rightarrow>
             write_rst_all e (filter (\<lambda>c. c \<in> set commands) build_commands) st1)"

section \<open>Vocabulary of the properties\<close>

text \<open>
  The section of a help text the scans are about: the lines after the first line that is
  the header once stripped, up to the first empty line after it.
\<close>

definition section_lines :: "string \<Rightarrow> string list \<Rightarrow> string list" where
  "section_lines header lines =
     takeWhile (\<lambda>l. l \<noteq> []) (drop 1 (dropWhile (\<lambda>l. strip l \<noteq> header) lines))"

text \<open>The first whitespace-delimited token of a line.\<close>

definition first_token :: "string \<Rightarrow> string" where
  "first_token l = takeWhile (\<lambda>c. \<not> is_space c) (dropWhile is_space l)"

text \<open>
  What the description of the scan promises: the first tokens of the lines of the section
  whose character at column 4 is not a blank.
\<close>

definition listed_commands :: "string \<Rightarrow> string list \<Rightarrow> string list" where
  "listed_commands header lines =
     map first_token (filter (\<lambda>l. l ! 4 \<noteq> CHR '' '') (section_lines header lines))"

text \<open>
  The column layout the scan expects: every line of the section reaches column 4, none
  repeats the header, and a line that is not blank at column 4 holds a token.
\<close>

definition column_layout :: "string \<Rightarrow> string list \<Rightarrow> bool" where
  "column_layout header lines \<longleftrightarrow>
     (\<forall>l \<in> set (section_lines header lines).
        5 \<le> length l \<and> strip l \<noteq> header \<and>
        (l ! 4 \<noteq> CHR '' '' \<longrightarrow> (\<exists>c \<in> set l. \<not> is_space c)))"

text \<open>How often the converter and the runtime-info query occur among command lines.\<close>

definition converter_runs :: "string list list \<Rightarrow> nat" where
  "converter_runs cs = length (filter (\<lambda>args. take 1 args = [''help2man'']) cs)"

definition info_queries :: "string list list \<Rightarrow> nat" where
  "info_queries cs = length (filter (\<lambda>args. args = [''conda'', ''info'', ''--json'']) cs)"

text \<open>
  What the version query gives \<open>generate_man\<close> when it starts in \<open>st\<close>, and what the
  converter gives at its attempt number \<open>i\<close> (counted from 0) when the version query and
  all attempts before it were made.
\<close>

definition version_text :: "env \<Rightarrow> state \<Rightarrow> error + string" where
  "version_text e st = fst (run_command e [''conda'', ''--version''] True st)"

definition converter_output :: "env \<Rightarrow> string \<Rightarrow> state \<Rightarrow> nat \<Rightarrow> error + string" where
  "converter_output e command st i =
     (case version_text e st of
        Inl raised \<Rightarrow> Inl raised
      | Inr v \<Rightarrow>
          fst (run_command e (help2man_args command v) False
                 (st\<lparr>calls := calls st @ [''conda'', ''--version''] #
                                 replicate i (help2man_args command v)\<rparr>)))"

text \<open>
  The environment that is \<open>e\<close> but for the version query \<open>generate_man\<close> makes when it
  starts in \<open>st\<close>: there the program does what it does in \<open>e\<close> and exits with code 0.
\<close>

definition version_succeeds :: "env \<Rightarrow> state \<Rightarrow> env" where
  "version_succeeds e st =
     e\<lparr>exec := (\<lambda>hist args.
          if hist = calls st \<and> args = [''conda'', ''--version'']
          then (case exec e hist args of
                  Inl raised \<Rightarrow> Inl raised
                | Inr p \<Rightarrow> Inr (p\<lparr>returncode := 0\<rparr>))
          else exec e hist args)\<rparr>"

text \<open>The state \<open>st\<close> with one more line on the error stream, after its first \<open>n\<close> lines.\<close>

definition with_diagnostic :: "nat \<Rightarrow> message \<Rightarrow> state \<Rightarrow> state" where
  "with_diagnostic n m st =
     st\<lparr>err_stream := take n (err_stream st) @ m # drop n (err_stream st)\<rparr>"

text \<open>What \<open>generate_man\<close> does after the version query has given \<open>conda_version\<close>.\<close>

definition after_version :: "env \<Rightarrow> string \<Rightarrow> string \<Rightarrow> state \<Rightarrow> (error + unit) \<times> state" where
  "after_version e command conda_version st1 =
     (case man_loop e command conda_version [] 5 st1 of
        (Inl raised, st2) \<Rightarrow> (Inl raised, st2)
      | (Inr manpage, st2) \<Rightarrow>
          if manpage = []
          then (Inl (SystemExit (''Error: Could not get help for conda '' @ command)), st2)
          else (case man_replacements e st2 of
                  (Inl err, st3) \<Rightarrow> (Inl err, st3)
                | (Inr replacements, st3) \<Rightarrow>
                    (Inr (),
                     print_out (Text (''Generated manpage for conda '' @ command))
                       (write_file
                          (path_join (manpath e) (''conda-'' @ command_file command @ ''.1''))
                          (apply_replacements replacements manpage) st3))))"

text \<open>
  Two environments agree from \<open>n\<close> on: they differ at most in what programs do that are
  run when fewer than \<open>n\<close> invocations have been made.
\<close>

definition agree_from :: "nat \<Rightarrow> env \<Rightarrow> env \<Rightarrow> bool" where
  "agree_from n e e' \<longleftrightarrow>
     json_info e' = json_info e \<and> here e' = here e \<and> pathsep e' = pathsep e \<and>
     abspath e' = abspath e \<and>
     (\<forall>hist args. n \<le> length hist \<longrightarrow> exec e' hist args = exec e hist args)"



text \<open>\<open>occurs old s\<close>: the text \<open>old\<close> occurs in \<open>s\<close>.\<close>

fun occurs :: "string \<Rightarrow> string \<Rightarrow> bool" where
  "occurs old [] = (old = [])"
| "occurs old (c # cs) = (take (length old) (c # cs) = old \<or> occurs old cs)"

section \<open>Concrete runs\<close>

text \<open>
  A fresh process, and environments built around a given behaviour of the external
  programs, which all can be started; \<open>answer rc out err\<close> is a program that writes
  \<open>out\<close> on stdout, then \<open>err\<close> on stderr, and exits with code \<open>rc\<close>. The runtime info
  is the one of an installation under \<open>/opt/conda\<close>.
\<close>

definition fresh :: state where
  "fresh = \<lparr>calls = [], out_stream = [], err_stream = [], files = [], help_cache = []\<rparr>"

definition answer :: "int \<Rightarrow> string \<Rightarrow> string \<Rightarrow> proc_result" where
  "answer rc out err = \<lparr>returncode = rc, writes = [(Stdout, Utf8 out), (Stderr, Utf8 err)]\<rparr>"

definition example_info :: conda_info where
  "example_info =
     \<lparr>default_prefix = ''/opt/conda'', envs_dirs = [''/opt/conda/envs''],
      user_rc_path = ''/root/.condarc'', sys_rc_path = ''/opt/conda/.condarc'',
      root_prefix = ''/opt/conda''\<rparr>"

definition example_env :: "(string list list \<Rightarrow> string list \<Rightarrow> proc_result) \<Rightarrow> env" where
  "example_env x =
     \<lparr>exec = (\<lambda>hist args. Inr (x hist args)), json_info = (\<lambda>t. Inr example_info), here = ''/docs'', pathsep = '':'',
      abspath = (\<lambda>p. p)\<rparr>"

text \<open>A converter that never gives anything, and one that gives a page at its second run.\<close>

definition silent_converter :: "string list list \<Rightarrow> string list \<Rightarrow> proc_result" where
  "silent_converter hist args =
     (if take 1 args = [''help2man''] then answer 0 [] [] else answer 0 ''conda 4.0'' [])"

definition slow_converter :: "string list list \<Rightarrow> string list \<Rightarrow> proc_result" where
  "slow_converter hist args =
     (if take 1 args = [''help2man'']
      then (if converter_runs hist = 0 then answer 0 [] [] else answer 0 ''.TH CONDA'' [])
      else answer 0 ''conda 4.0'' [])"

text \<open>Programs that all succeed; a version query that fails; a program that warns.\<close>

definition working_tools :: "string list list \<Rightarrow> string list \<Rightarrow> proc_result" where
  "working_tools hist args = answer 0 ''.TH CONDA'' []"

definition failing_version :: "string list list \<Rightarrow> string list \<Rightarrow> proc_result" where
  "failing_version hist args =
     (if args = [''conda'', ''--version''] then answer 1 ''conda '' ''no version''
      else answer 0 ''.TH CONDA'' [])"

definition warning_program :: "string list list \<Rightarrow> string list \<Rightarrow> proc_result" where
  "warning_program hist args = answer 0 ''conda 4.0'' ''deprecated''"

text \<open>A converter whose page names a path below the environments directory.\<close>

definition prefix_page :: "string list list \<Rightarrow> string list \<Rightarrow> proc_result" where
  "prefix_page hist args =
     (if take 1 args = [''help2man''] then answer 0 ''--prefix /opt/conda/envs/py'' []
      else answer 0 ''conda 4.0'' [])"

text \<open>Help texts, given by their lines.\<close>

definition text_of_lines :: "string list \<Rightarrow> string" where
  "text_of_lines ls = concat (map (\<lambda>l. l @ [CHR 0x0A]) ls)"

definition layout_help :: string where
  "layout_help = text_of_lines
     [''usage: conda [-h] command ...'',
      [],
      ''positional arguments:'',
      ''  command'',
      ''    clean        Remove unused packages and caches.'',
      ''    config       Modify configuration values. This is'',
      ''                 modeled after the git config command.'',
      [],
      ''optional arguments:'']"

definition short_line_help :: string where
  "short_line_help = text_of_lines
     [''  command'',
      ''    clean        Remove unused packages and caches.'',
      ''ab'',
      [],
      ''other commands:'',
      ''  xy'',
      []]"

definition skeleton_help :: string where
  "skeleton_help = text_of_lines
     [''usage: conda skeleton [-h] {cran,pypi} ...'',
      [],
      ''positional arguments:'',
      ''  {cran,pypi}'',
      [],
      ''optional arguments:'']"

definition plugin_help :: string where
  "plugin_help = text_of_lines
     [''usage: conda [-h] command ...'',
      [],
      ''other commands:'',
      ''  build'',
      ''  skeleton'',
      []]"

definition help_program :: "string \<Rightarrow> string list list \<Rightarrow> string list \<Rightarrow> proc_result" where
  "help_program toplevel hist args =
     (if args = [''conda'', ''--help''] then answer 0 toplevel []
      else if args = [''conda'', ''skeleton'', ''--help''] then answer 0 skeleton_help []
      else answer 0 ''usage: conda'' [])"

section \<open>Lemmas\<close>

subsection \<open>Texts\<close>

lemma split_run_cur:
  "cur \<noteq> [] \<Longrightarrow>
   split_run cur s =
     (cur @ takeWhile (\<lambda>c. \<not> is_space c) s) # split_run [] (dropWhile (\<lambda>c. \<not> is_space c) s)"
  by (induction s arbitrary: cur) auto

lemma split_run_skip: "split_run [] s = split_run [] (dropWhile is_space s)"
  by (induction s) auto

lemma split_run_token:
  "\<not> is_space c \<Longrightarrow>
   split_run [] (c # s) =
     takeWhile (\<lambda>c. \<not> is_space c) (c # s) # split_run [] (dropWhile (\<lambda>c. \<not> is_space c) (c # s))"
  using split_run_cur [of "[c]" s] by simp

lemma split_first_token:
  assumes "\<exists>c \<in> set l. \<not> is_space c"
  shows "\<exists>ws. split l = first_token l # ws"
proof -
  from assms have ne: "dropWhile is_space l \<noteq> []" by (auto simp: dropWhile_eq_Nil_conv)
  then obtain c s where cs: "dropWhile is_space l = c # s" by (cases "dropWhile is_space l") auto
  then have "\<not> is_space c" using hd_dropWhile [of is_space l] ne by (metis list.sel(1))
  then have tok: "split_run [] (c # s) =
     takeWhile (\<lambda>c. \<not> is_space c) (c # s) # split_run [] (dropWhile (\<lambda>c. \<not> is_space c) (c # s))"
    by (rule split_run_token)
  have "split l = split_run [] (c # s)"
    unfolding split_def using split_run_skip [of l] cs by simp
  from this tok have "split l =
     takeWhile (\<lambda>c. \<not> is_space c) (c # s) # split_run [] (dropWhile (\<lambda>c. \<not> is_space c) (c # s))"
    by (rule trans)
  then show ?thesis
    unfolding first_token_def cs by (rule exI)
qed

lemma split_all_space: "\<forall>c \<in> set l. is_space c \<Longrightarrow> split l = []"
  unfolding split_def by (induction l) auto

lemma length_strip_le: "length (strip l) \<le> length l"
  unfolding strip_def
  by (metis length_dropWhile_le length_rev le_trans)

lemma strip_Nil: "strip [] = []"
  by (simp add: strip_def)

lemma replace_absent: "old \<noteq> [] \<Longrightarrow> \<not> occurs old s \<Longrightarrow> replace old new s = s"
  by (induction s) auto

lemma replace_at_start: "old \<noteq> [] \<Longrightarrow> replace old new (old @ rest) = new @ replace old new rest"
  by (cases old) simp_all

lemma replace_leftmost:
  assumes "old \<noteq> []"
  shows "\<not> occurs old (pre @ butlast old) \<Longrightarrow>
         replace old new (pre @ old @ rest) = pre @ new @ replace old new rest"
proof (induction pre)
  case Nil
  with assms show ?case using replace_at_start [of old new rest] by simp
next
  case (Cons p ps)
  from Cons.prems have no: "take (length old) (p # ps @ butlast old) \<noteq> old"
    and rest: "\<not> occurs old (ps @ butlast old)" by simp_all
  have old: "old = butlast old @ [last old]" using assms by simp
  have len: "length old \<le> length (p # ps @ butlast old)" by simp
  have "p # ps @ old @ rest = (p # ps @ butlast old) @ (last old # rest)"
    using old by (metis append.assoc append_Cons append_Nil)
  then have "take (length old) (p # ps @ old @ rest) = take (length old) (p # ps @ butlast old)"
    using len by (simp only: take_append) simp
  with no have "take (length old) (p # ps @ old @ rest) \<noteq> old" by simp
  with assms Cons.IH [OF rest] show ?case by simp
qed

lemma apply_replacements_snoc:
  "apply_replacements (tbl @ [(k, v)]) t = replace k v (apply_replacements tbl t)"
  by (induction tbl arbitrary: t) auto

subsection \<open>The scan of a section\<close>

lemma scan_section_before:
  "scan_section header False commands lines =
     scan_section header True commands (drop 1 (dropWhile (\<lambda>l. strip l \<noteq> header) lines))"
  by (induction lines) auto

lemma scan_section_layout:
  assumes "header \<noteq> []"
    and "\<forall>l \<in> set (takeWhile (\<lambda>l. l \<noteq> []) lines).
           5 \<le> length l \<and> strip l \<noteq> header \<and>
           (l ! 4 \<noteq> CHR '' '' \<longrightarrow> (\<exists>c \<in> set l. \<not> is_space c))"
  shows "scan_section header True commands lines =
           Inr (commands @ map first_token
                  (filter (\<lambda>l. l ! 4 \<noteq> CHR '' '') (takeWhile (\<lambda>l. l \<noteq> []) lines)))"
  using assms(2)
proof (induction lines arbitrary: commands)
  case Nil
  then show ?case by simp
next
  case (Cons x xs)
  show ?case
  proof (cases "x = []")
    case True
    with assms(1) show ?thesis by (simp add: strip_Nil)
  next
    case False
    with Cons.prems have x: "5 \<le> length x" "strip x \<noteq> header"
      "x ! 4 \<noteq> CHR '' '' \<longrightarrow> (\<exists>c \<in> set x. \<not> is_space c)"
      and rest: "\<forall>l \<in> set (takeWhile (\<lambda>l. l \<noteq> []) xs).
           5 \<le> length l \<and> strip l \<noteq> header \<and>
           (l ! 4 \<noteq> CHR '' '' \<longrightarrow> (\<exists>c \<in> set l. \<not> is_space c))"
      by auto
    show ?thesis
    proof (cases "x ! 4 = CHR '' ''")
      case True
      with False x Cons.IH [OF rest] show ?thesis by simp
    next
      case nb: False
      with x obtain ws where "split x = first_token x # ws"
        using split_first_token by blast
      with nb False x Cons.IH [OF rest] show ?thesis by simp
    qed
  qed
qed

lemma scan_section_short:
  assumes "5 \<le> length header"
    and "l \<in> set (takeWhile (\<lambda>l. l \<noteq> []) lines)" and "length l < 5"
  shows "\<exists>msg. scan_section header True commands lines = Inl (IndexError msg)"
  using assms(2)
proof (induction lines arbitrary: commands)
  case Nil
  then show ?case by simp
next
  case (Cons x xs)
  then have xne: "x \<noteq> []" by (auto split: if_splits)
  show ?case
  proof (cases "length x < 5")
    case True
    then have "strip x \<noteq> header"
      using length_strip_le [of x] assms(1) by auto
    with True xne show ?thesis by simp
  next
    case False
    with Cons.prems xne assms(3) have "l \<in> set (takeWhile (\<lambda>l. l \<noteq> []) xs)"
      by auto
    from Cons.IH [OF this] show ?thesis
      using False xne by (auto split: list.splits)
  qed
qed

subsection \<open>What running a program changes\<close>

lemma run_command_calls: "calls (snd (run_command e args b st)) = calls st @ [args]"
  by (simp add: run_command_def Let_def print_err_def print_out_def split: sum.splits)

lemma run_command_cache: "help_cache (snd (run_command e args b st)) = help_cache st"
  by (simp add: run_command_def Let_def print_err_def print_out_def split: sum.splits)


lemma run_command_fst_calls:
  "calls st = calls st' \<Longrightarrow> fst (run_command e args b st) = fst (run_command e args b st')"
  by (simp add: run_command_def Let_def split: sum.splits)

lemma run_command_raises:
  "exec e (calls st) args = Inl raised \<Longrightarrow> fst (run_command e args inc st) = Inl raised"
  by (simp add: run_command_def Let_def)

lemma run_command_not_utf8:
  "exec e (calls st) args = Inr p \<Longrightarrow> (Stdout, NotUtf8) \<in> set (writes p) \<Longrightarrow>
   fst (run_command e args inc st) = Inl UnicodeDecodeError"
proof -
  assume ex: "exec e (calls st) args = Inr p" and w: "(Stdout, NotUtf8) \<in> set (writes p)"
  have bad: "NotUtf8 \<in> set bs \<Longrightarrow> decode bs = Inl UnicodeDecodeError" for bs
  proof (induction bs rule: decode.induct)
    case 1
    then show ?case by simp
  next
    case (2 s bs)
    then show ?case by simp
  next
    case (3 bs)
    then show ?case by simp
  qed
  from w have "NotUtf8 \<in> set (piped (if inc then [Stdout, Stderr] else [Stdout]) p)"
    by (force simp: piped_def)
  from bad [OF this] ex show ?thesis
    by (simp add: run_command_def Let_def)
qed

lemma run_command_merges:
  "fst (run_command (example_env warning_program) [''conda'', ''--version''] True fresh) =
     Inr ''conda 4.0deprecated''"
  by (simp add: run_command_def Let_def piped_def example_env_def warning_program_def
        answer_def)

lemma run_command_effect:
  assumes "exec e (calls st) args = Inr p"
    and "decode (piped (if inc then [Stdout, Stderr] else [Stdout]) p) = Inr out"
    and "decode (if inc then [] else piped [Stderr] p) = Inr err"
  shows "run_command e args inc st =
           (Inr out,
            if returncode p \<noteq> 0
            then print_err (FailedWithCode args (returncode p)) (st\<lparr>calls := calls st @ [args]\<rparr>)
            else if err \<noteq> [] then print_out (GaveStderr args err) (st\<lparr>calls := calls st @ [args]\<rparr>)
            else st\<lparr>calls := calls st @ [args]\<rparr>)"
  using assms by (cases inc) (simp_all add: run_command_def Let_def)

lemma run_command_err_length:
  "length (err_stream st) \<le> length (err_stream (snd (run_command e args inc st)))"
  by (simp add: run_command_def print_err_def print_out_def Let_def split: sum.splits)

lemma run_command_frame:
  "n \<le> length (err_stream st) \<Longrightarrow>
   run_command e args inc (with_diagnostic n d st) =
     (fst (run_command e args inc st), with_diagnostic n d (snd (run_command e args inc st)))"
  by (simp add: run_command_def with_diagnostic_def print_err_def print_out_def Let_def
           split: sum.splits)

lemma run_command_agree:
  "agree_from n e e' \<Longrightarrow> n \<le> length (calls st) \<Longrightarrow>
   run_command e' args inc st = run_command e args inc st"
  by (simp add: run_command_def agree_from_def)

lemma str_check_output_calls: "calls (snd (str_check_output e args st)) = calls st @ [args]"
  by (simp add: str_check_output_def Let_def split: sum.splits)

lemma str_check_output_cache: "help_cache (snd (str_check_output e args st)) = help_cache st"
  by (simp add: str_check_output_def Let_def split: sum.splits)


lemma str_check_output_err_stream: "err_stream (snd (str_check_output e args st)) = err_stream st"
  by (simp add: str_check_output_def Let_def split: sum.splits)

lemma str_check_output_fst_calls:
  "calls st = calls st' \<Longrightarrow> fst (str_check_output e args st) = fst (str_check_output e args st')"
  by (simp add: str_check_output_def Let_def split: sum.splits)

lemma str_check_output_frame:
  "str_check_output e args (with_diagnostic n d st) =
     (fst (str_check_output e args st), with_diagnostic n d (snd (str_check_output e args st)))"
  by (simp add: str_check_output_def with_diagnostic_def Let_def split: sum.splits)

lemma str_check_output_agree:
  "agree_from n e e' \<Longrightarrow> n \<le> length (calls st) \<Longrightarrow>
   str_check_output e' args st = str_check_output e args st"
  by (simp add: str_check_output_def agree_from_def)

subsection \<open>Counting invocations\<close>

lemma converter_runs_append: "converter_runs (xs @ ys) = converter_runs xs + converter_runs ys"
  by (simp add: converter_runs_def)

lemma converter_runs_replicate: "converter_runs (replicate n (help2man_args command v)) = n"
  by (induction n) (simp_all add: converter_runs_def help2man_args_def)

lemma converter_runs_version:
  "converter_runs ([''conda'', ''--version''] # xs) = converter_runs xs"
  by (simp add: converter_runs_def)

lemma converter_runs_info:
  "converter_runs ([''conda'', ''info'', ''--json''] # xs) = converter_runs xs"
  by (simp add: converter_runs_def)

lemma converter_runs_help2man:
  "converter_runs (help2man_args command v # xs) = Suc (converter_runs xs)"
  by (simp add: converter_runs_def help2man_args_def)

lemma converter_runs_Nil: "converter_runs [] = 0"
  by (simp add: converter_runs_def)

lemma info_queries_append: "info_queries (xs @ ys) = info_queries xs + info_queries ys"
  by (simp add: info_queries_def)

lemma info_queries_replicate: "info_queries (replicate n (help2man_args command v)) = 0"
  by (induction n) (simp_all add: info_queries_def help2man_args_def)

lemma info_queries_Cons:
  "info_queries (x # xs) = (if x = [''conda'', ''info'', ''--json''] then 1 else 0) + info_queries xs"
  by (simp add: info_queries_def)

lemma info_queries_Nil: "info_queries [] = 0"
  by (simp add: info_queries_def)

subsection \<open>The retry loop\<close>

lemma attempt_shift:
  assumes "calls st1 = calls st @ [a]"
  shows "fst (run_command e a b (st1\<lparr>calls := calls st1 @ replicate i a\<rparr>)) =
         fst (run_command e a b (st\<lparr>calls := calls st @ replicate (Suc i) a\<rparr>))"
  by (rule run_command_fst_calls) (simp add: assms replicate_app_Cons_same)

lemma attempt_now:
  "fst (run_command e a b (st\<lparr>calls := calls st @ replicate 0 a\<rparr>)) = fst (run_command e a b st)"
  by (rule run_command_fst_calls) simp

lemma man_loop_empty:
  "\<forall>i<n. fst (run_command e (help2man_args command v) False
             (st\<lparr>calls := calls st @ replicate i (help2man_args command v)\<rparr>)) = Inr [] \<Longrightarrow>
   fst (man_loop e command v [] n st) = Inr [] \<and>
   calls (snd (man_loop e command v [] n st)) = calls st @ replicate n (help2man_args command v)"
proof (induction n arbitrary: st)
  case 0
  then show ?case by simp
next
  case (Suc n)
  let ?a = "help2man_args command v"
  obtain r st1 where rc: "run_command e ?a False st = (r, st1)" by (cases "run_command e ?a False st")
  from Suc.prems [rule_format, of 0] have "fst (run_command e ?a False st) = Inr []"
    by (simp add: attempt_now)
  with rc have r: "r = Inr []" by simp
  from rc have c1: "calls st1 = calls st @ [?a]" using run_command_calls [of e ?a False st] by simp
  have "\<forall>i<n. fst (run_command e ?a False (st1\<lparr>calls := calls st1 @ replicate i ?a\<rparr>)) = Inr []"
  proof (intro allI impI)
    fix i assume "i < n"
    then have "fst (run_command e ?a False (st\<lparr>calls := calls st @ replicate (Suc i) ?a\<rparr>)) = Inr []"
      using Suc.prems [rule_format, of "Suc i"] by simp
    then show "fst (run_command e ?a False (st1\<lparr>calls := calls st1 @ replicate i ?a\<rparr>)) = Inr []"
      by (simp only: attempt_shift [OF c1])
  qed
  from Suc.IH [OF this] show ?case
    by (simp add: rc r c1 replicate_app_Cons_same)
qed

lemma man_loop_first:
  "k < n \<Longrightarrow>
   \<forall>i<k. fst (run_command e (help2man_args command v) False
             (st\<lparr>calls := calls st @ replicate i (help2man_args command v)\<rparr>)) = Inr [] \<Longrightarrow>
   fst (run_command e (help2man_args command v) False
          (st\<lparr>calls := calls st @ replicate k (help2man_args command v)\<rparr>)) = Inr m \<Longrightarrow>
   m \<noteq> [] \<Longrightarrow>
   fst (man_loop e command v [] n st) = Inr m \<and>
   calls (snd (man_loop e command v [] n st)) = calls st @ replicate (Suc k) (help2man_args command v)"
proof (induction n arbitrary: st k)
  case 0
  then show ?case by simp
next
  case (Suc n)
  let ?a = "help2man_args command v"
  obtain r st1 where rc: "run_command e ?a False st = (r, st1)" by (cases "run_command e ?a False st")
  from rc have r: "r = fst (run_command e ?a False st)" by simp
  from rc have c1: "calls st1 = calls st @ [?a]" using run_command_calls [of e ?a False st] by simp
  show ?case
  proof (cases k)
    case 0
    with Suc.prems(3) r have r': "r = Inr m" by (simp add: attempt_now)
    with Suc.prems(4) show ?thesis using 0 rc c1 by (cases n) simp_all
  next
    case (Suc j)
    from Suc.prems(2) [rule_format, of 0] Suc r have r0: "r = Inr []"
      by (simp add: attempt_now)
    have jn: "j < n" using Suc Suc.prems by simp
    have e1: "\<forall>i<j. fst (run_command e ?a False (st1\<lparr>calls := calls st1 @ replicate i ?a\<rparr>)) = Inr []"
    proof (intro allI impI)
      fix i assume "i < j"
      then have "fst (run_command e ?a False (st\<lparr>calls := calls st @ replicate (Suc i) ?a\<rparr>)) = Inr []"
        using Suc.prems(2) [rule_format, of "Suc i"] Suc by simp
      then show "fst (run_command e ?a False (st1\<lparr>calls := calls st1 @ replicate i ?a\<rparr>)) = Inr []"
        by (simp only: attempt_shift [OF c1])
    qed
    have e2: "fst (run_command e ?a False (st1\<lparr>calls := calls st1 @ replicate j ?a\<rparr>)) = Inr m"
      using Suc.prems(3) Suc by (simp only: attempt_shift [OF c1])
    from Suc.IH [OF jn e1 e2 Suc.prems(4)] show ?thesis
      using rc r0 c1 Suc by (simp add: replicate_app_Cons_same)
  qed
qed

lemma man_loop_calls:
  "\<exists>j. calls (snd (man_loop e command v m n st)) = calls st @ replicate j (help2man_args command v)"
proof (induction n arbitrary: m st)
  case 0
  have "calls st = calls st @ replicate 0 (help2man_args command v)" by simp
  then show ?case by (metis man_loop.simps(1) snd_conv)
next
  case (Suc n)
  let ?a = "help2man_args command v"
  show ?case
  proof (cases "m = []")
    case False
    have "calls st = calls st @ replicate 0 ?a" by simp
    with False show ?thesis by (metis man_loop.simps(2) snd_conv)
  next
    case True
    obtain r st1 where rc: "run_command e ?a False st = (r, st1)" by (cases "run_command e ?a False st")
    then have c1: "calls st1 = calls st @ [?a]" using run_command_calls [of e ?a False st] by simp
    show ?thesis
    proof (cases r)
      case (Inl raised)
      with True rc c1 have "calls (snd (man_loop e command v m (Suc n) st)) = calls st @ replicate 1 ?a"
        by simp
      then show ?thesis by blast
    next
      case (Inr m1)
      from Suc.IH [of m1 st1] obtain j where
        "calls (snd (man_loop e command v m1 n st1)) = calls st1 @ replicate j ?a" by blast
      then have "calls (snd (man_loop e command v m (Suc n) st)) = calls st @ replicate (Suc j) ?a"
        using True rc Inr c1 by (simp add: replicate_app_Cons_same)
      then show ?thesis by blast
    qed
  qed
qed

lemma man_loop_starts:
  "\<exists>j. calls (snd (man_loop e command v [] (Suc n) st)) =
        calls st @ help2man_args command v # replicate j (help2man_args command v)"
proof -
  let ?a = "help2man_args command v"
  obtain r st1 where rc: "run_command e ?a False st = (r, st1)" by (cases "run_command e ?a False st")
  then have c1: "calls st1 = calls st @ [?a]" using run_command_calls [of e ?a False st] by simp
  show ?thesis
  proof (cases r)
    case (Inl raised)
    with rc c1 have "calls (snd (man_loop e command v [] (Suc n) st)) = calls st @ ?a # replicate 0 ?a"
      by simp
    then show ?thesis by blast
  next
    case (Inr m1)
    from man_loop_calls [of e command v m1 n st1] obtain j where
      "calls (snd (man_loop e command v m1 n st1)) = calls st1 @ replicate j ?a" by blast
    then have "calls (snd (man_loop e command v [] (Suc n) st)) = calls st @ ?a # replicate j ?a"
      using rc Inr c1 by simp
    then show ?thesis by blast
  qed
qed


lemma man_loop_err_length:
  "length (err_stream st) \<le> length (err_stream (snd (man_loop e command v m k st)))"
proof (induction k arbitrary: m st)
  case 0
  then show ?case by simp
next
  case (Suc k)
  let ?a = "help2man_args command v"
  show ?case
  proof (cases "m = []")
    case False
    then show ?thesis by simp
  next
    case True
    obtain r st1 where rc: "run_command e ?a False st = (r, st1)"
      by (cases "run_command e ?a False st")
    then have "length (err_stream st) \<le> length (err_stream st1)"
      using run_command_err_length [of st e ?a False] by simp
    with Suc.IH [of st1] show ?thesis
      using True rc by (cases r) (auto intro: le_trans)
  qed
qed

lemma man_loop_frame:
  "n \<le> length (err_stream st) \<Longrightarrow>
   man_loop e command v m k (with_diagnostic n d st) =
     (fst (man_loop e command v m k st), with_diagnostic n d (snd (man_loop e command v m k st)))"
proof (induction k arbitrary: m st)
  case 0
  then show ?case by simp
next
  case (Suc k)
  let ?a = "help2man_args command v"
  show ?case
  proof (cases "m = []")
    case False
    then show ?thesis by simp
  next
    case True
    obtain r st1 where rc: "run_command e ?a False st = (r, st1)"
      by (cases "run_command e ?a False st")
    then have rc': "run_command e ?a False (with_diagnostic n d st) = (r, with_diagnostic n d st1)"
      using run_command_frame [OF Suc.prems, of e ?a False d] by simp
    from rc have "n \<le> length (err_stream st1)"
      using run_command_err_length [of st e ?a False] Suc.prems by simp
    from Suc.IH [OF this] show ?thesis
      using True rc rc' by (cases r) simp_all
  qed
qed

lemma man_loop_agree:
  "agree_from n e e' \<Longrightarrow> n \<le> length (calls st) \<Longrightarrow>
   man_loop e' command v m k st = man_loop e command v m k st"
proof (induction k arbitrary: m st)
  case 0
  then show ?case by simp
next
  case (Suc k)
  let ?a = "help2man_args command v"
  show ?case
  proof (cases "m = []")
    case False
    then show ?thesis by simp
  next
    case True
    obtain r st1 where rc: "run_command e ?a False st = (r, st1)"
      by (cases "run_command e ?a False st")
    then have rc': "run_command e' ?a False st = (r, st1)"
      using run_command_agree [OF Suc.prems, of ?a False] by simp
    from rc have "calls st1 = calls st @ [?a]"
      using run_command_calls [of e ?a False st] by simp
    with Suc.prems(2) have "n \<le> length (calls st1)" by simp
    from Suc.IH [OF Suc.prems(1) this] show ?thesis
      using True rc rc' by (cases r) simp_all
  qed
qed

subsection \<open>The parts of \<open>generate_man\<close>\<close>

lemma man_replacements_calls:
  "calls (snd (man_replacements e st)) = calls st @ [[''conda'', ''info'', ''--json'']]"
  using str_check_output_calls [of e "[''conda'', ''info'', ''--json'']" st]
  by (auto simp: man_replacements_def split: prod.splits sum.splits)


lemma man_replacements_frame:
  "man_replacements e (with_diagnostic n d st) =
     (fst (man_replacements e st), with_diagnostic n d (snd (man_replacements e st)))"
  by (cases "str_check_output e [''conda'', ''info'', ''--json''] st")
     (simp add: man_replacements_def str_check_output_frame split: sum.splits)

lemma man_replacements_agree:
  assumes "agree_from n e e'" and "n \<le> length (calls st)"
  shows "man_replacements e' st = man_replacements e st"
proof -
  from assms(1) have j: "json_info e' = json_info e" and p: "pathsep e' = pathsep e"
    by (simp_all add: agree_from_def)
  show ?thesis
    unfolding man_replacements_def str_check_output_agree [OF assms] j p ..
qed

lemma generate_man_split:
  "generate_man e command st =
     (case run_command e [''conda'', ''--version''] True st of
        (Inl raised, st1) \<Rightarrow> (Inl raised, st1)
      | (Inr v, st1) \<Rightarrow> after_version e command v st1)"
  by (simp add: generate_man_def after_version_def Let_def split: prod.splits sum.splits)

lemma after_version_calls:
  assumes "man_loop e command v [] 5 st1 = (r, st2)"
  shows "calls (snd (after_version e command v st1)) =
           calls st2 @ (case r of Inl raised \<Rightarrow> []
                        | Inr m \<Rightarrow> if m = [] then [] else [[''conda'', ''info'', ''--json'']])"
proof (cases r)
  case (Inl raised)
  with assms show ?thesis by (simp add: after_version_def)
next
  case (Inr m)
  show ?thesis
  proof (cases "m = []")
    case True
    with Inr assms show ?thesis by (simp add: after_version_def)
  next
    case False
    with Inr assms show ?thesis
      using man_replacements_calls [of e st2]
      by (auto simp: after_version_def print_out_def write_file_def
               split: prod.splits sum.splits)
  qed
qed

lemma after_version_frame:
  assumes "n \<le> length (err_stream st)"
  shows "after_version e command v (with_diagnostic n d st) =
     (fst (after_version e command v st), with_diagnostic n d (snd (after_version e command v st)))"
proof -
  obtain r st2 where ml: "man_loop e command v [] 5 st = (r, st2)"
    by (cases "man_loop e command v [] 5 st")
  then have ml': "man_loop e command v [] 5 (with_diagnostic n d st) = (r, with_diagnostic n d st2)"
    using man_loop_frame [OF assms, of e command v "[]" 5 d] by simp
  obtain r3 st3 where mr: "man_replacements e st2 = (r3, st3)"
    by (cases "man_replacements e st2")
  then have mr': "man_replacements e (with_diagnostic n d st2) = (r3, with_diagnostic n d st3)"
    using man_replacements_frame [of e n d st2] by simp
  show ?thesis
    using ml ml' mr mr'
    by (cases r; cases r3)
       (simp_all add: after_version_def with_diagnostic_def print_out_def write_file_def)
qed

lemma after_version_agree:
  assumes "agree_from n e e'" and "n \<le> length (calls st)"
  shows "after_version e' command v st = after_version e command v st"
proof -
  obtain r st2 where ml: "man_loop e command v [] 5 st = (r, st2)"
    by (cases "man_loop e command v [] 5 st")
  then have ml': "man_loop e' command v [] 5 st = (r, st2)"
    using man_loop_agree [OF assms, of command v "[]" 5] by simp
  from man_loop_calls [of e command v "[]" 5 st] ml
  have "n \<le> length (calls st2)" using assms(2) by auto
  then have mr: "man_replacements e' st2 = man_replacements e st2"
    by (rule man_replacements_agree [OF assms(1)])
  have mp: "manpath e' = manpath e"
    using assms(1) by (simp add: manpath_def agree_from_def)
  show ?thesis
    unfolding after_version_def ml ml' prod.case mr mp ..
qed

lemma version_succeeds_agree: "agree_from (Suc (length (calls st))) e (version_succeeds e st)"
  by (auto simp: agree_from_def version_succeeds_def)

lemma converter_output_version:
  assumes "converter_output e command st i = Inr m"
  shows "\<exists>v st1. run_command e [''conda'', ''--version''] True st = (Inr v, st1) \<and>
           calls st1 = calls st @ [[''conda'', ''--version'']] \<and>
           (\<forall>j. fst (run_command e (help2man_args command v) False
                  (st1\<lparr>calls := calls st1 @ replicate j (help2man_args command v)\<rparr>)) =
             converter_output e command st j)"
proof -
  obtain r st1 where rc: "run_command e [''conda'', ''--version''] True st = (r, st1)"
    by (cases "run_command e [''conda'', ''--version''] True st")
  then have vt: "version_text e st = r" by (simp add: version_text_def)
  with assms obtain v where r: "r = Inr v"
    by (cases r) (simp_all add: converter_output_def)
  from rc have c1: "calls st1 = calls st @ [[''conda'', ''--version'']]"
    using run_command_calls [of e "[''conda'', ''--version'']" True st] by simp
  have "fst (run_command e (help2man_args command v) False
                  (st1\<lparr>calls := calls st1 @ replicate j (help2man_args command v)\<rparr>)) =
             converter_output e command st j" for j
    unfolding converter_output_def vt r
    by (simp, rule run_command_fst_calls) (simp add: c1)
  with rc r c1 show ?thesis by blast
qed

lemma generate_man_exhausted:
  assumes "\<forall>i<5. converter_output e command st i = Inr []"
  shows "fst (generate_man e command st) =
           Inl (SystemExit (''Error: Could not get help for conda '' @ command))"
    and "converter_runs (calls (snd (generate_man e command st))) = converter_runs (calls st) + 5"
proof -
  from assms have "converter_output e command st 0 = Inr []" by simp
  from converter_output_version [OF this]
  obtain v st1 where rc: "run_command e [''conda'', ''--version''] True st = (Inr v, st1)"
    and c1: "calls st1 = calls st @ [[''conda'', ''--version'']]"
    and att: "\<And>j. fst (run_command e (help2man_args command v) False
                  (st1\<lparr>calls := calls st1 @ replicate j (help2man_args command v)\<rparr>)) =
             converter_output e command st j"
    by blast
  let ?a = "help2man_args command v"
  have "\<forall>i<5. fst (run_command e ?a False (st1\<lparr>calls := calls st1 @ replicate i ?a\<rparr>)) = Inr []"
    using assms att by simp
  from man_loop_empty [OF this]
  have f: "fst (man_loop e command v [] 5 st1) = Inr []"
    and c: "calls (snd (man_loop e command v [] 5 st1)) = calls st1 @ replicate 5 ?a"
    by simp_all
  obtain r st2 where ml: "man_loop e command v [] 5 st1 = (r, st2)"
    by (cases "man_loop e command v [] 5 st1")
  with f c have r: "r = Inr []" and c2: "calls st2 = calls st1 @ replicate 5 ?a" by simp_all
  have gm: "generate_man e command st = after_version e command v st1"
    using rc by (simp add: generate_man_split)
  show "fst (generate_man e command st) =
           Inl (SystemExit (''Error: Could not get help for conda '' @ command))"
    using gm ml r by (simp add: after_version_def)
  have "calls (snd (generate_man e command st)) = calls st2"
    using after_version_calls [OF ml] gm r by simp
  then have "calls (snd (generate_man e command st)) =
      (calls st @ [[''conda'', ''--version'']]) @ replicate 5 ?a"
    by (simp only: c2 c1)
  then show "converter_runs (calls (snd (generate_man e command st))) = converter_runs (calls st) + 5"
    by (simp add: converter_runs_append converter_runs_replicate converter_runs_version
          converter_runs_Nil)
qed

lemma generate_man_stops:
  assumes "k < 5" and "\<forall>i<k. converter_output e command st i = Inr []"
    and "converter_output e command st k = Inr m" and "m \<noteq> []"
  shows "converter_runs (calls (snd (generate_man e command st))) = converter_runs (calls st) + Suc k"
proof -
  from converter_output_version [OF assms(3)]
  obtain v st1 where rc: "run_command e [''conda'', ''--version''] True st = (Inr v, st1)"
    and c1: "calls st1 = calls st @ [[''conda'', ''--version'']]"
    and att: "\<And>j. fst (run_command e (help2man_args command v) False
                  (st1\<lparr>calls := calls st1 @ replicate j (help2man_args command v)\<rparr>)) =
             converter_output e command st j"
    by blast
  let ?a = "help2man_args command v"
  have e1: "\<forall>i<k. fst (run_command e ?a False (st1\<lparr>calls := calls st1 @ replicate i ?a\<rparr>)) = Inr []"
    using assms(2) att by simp
  have e2: "fst (run_command e ?a False (st1\<lparr>calls := calls st1 @ replicate k ?a\<rparr>)) = Inr m"
    using assms(3) att by simp
  from man_loop_first [OF assms(1) e1 e2 assms(4)]
  have f: "fst (man_loop e command v [] 5 st1) = Inr m"
    and c: "calls (snd (man_loop e command v [] 5 st1)) = calls st1 @ replicate (Suc k) ?a"
    by simp_all
  obtain r st2 where ml: "man_loop e command v [] 5 st1 = (r, st2)"
    by (cases "man_loop e command v [] 5 st1")
  with f c have r: "r = Inr m" and c2: "calls st2 = calls st1 @ replicate (Suc k) ?a" by simp_all
  have gm: "generate_man e command st = after_version e command v st1"
    using rc by (simp add: generate_man_split)
  have "calls (snd (generate_man e command st)) = calls st2 @ [[''conda'', ''info'', ''--json'']]"
    using after_version_calls [OF ml] gm r assms(4) by simp
  then have "calls (snd (generate_man e command st)) =
      ((calls st @ [[''conda'', ''--version'']]) @ replicate (Suc k) ?a) @
      [[''conda'', ''info'', ''--json'']]"
    by (simp only: c2 c1)
  then show ?thesis
    by (simp add: converter_runs_append converter_runs_replicate converter_runs_version
          converter_runs_info converter_runs_help2man converter_runs_Nil)
qed

lemma generate_man_info_queries:
  assumes "fst (generate_man e command st) = Inr u"
  shows "info_queries (calls (snd (generate_man e command st))) = Suc (info_queries (calls st))"
proof -
  obtain rv st1 where rc: "run_command e [''conda'', ''--version''] True st = (rv, st1)"
    by (cases "run_command e [''conda'', ''--version''] True st")
  with assms obtain v where rv: "rv = Inr v"
    by (cases rv) (simp_all add: generate_man_split)
  from rc have c1: "calls st1 = calls st @ [[''conda'', ''--version'']]"
    using run_command_calls [of e "[''conda'', ''--version'']" True st] by simp
  have gm: "generate_man e command st = after_version e command v st1"
    using rc rv by (simp add: generate_man_split)
  obtain r st2 where ml: "man_loop e command v [] 5 st1 = (r, st2)"
    by (cases "man_loop e command v [] 5 st1")
  from man_loop_calls [of e command v "[]" 5 st1] ml obtain j where
    c2: "calls st2 = calls st1 @ replicate j (help2man_args command v)" by auto
  from assms gm ml obtain m where r: "r = Inr m" and m: "m \<noteq> []"
    by (cases r) (auto simp: after_version_def split: if_splits)
  have "calls (snd (generate_man e command st)) = calls st2 @ [[''conda'', ''info'', ''--json'']]"
    using after_version_calls [OF ml] gm r m by simp
  then have "calls (snd (generate_man e command st)) =
      ((calls st @ [[''conda'', ''--version'']]) @ replicate j (help2man_args command v)) @
      [[''conda'', ''info'', ''--json'']]"
    by (simp only: c2 c1)
  then show ?thesis
    by (simp add: info_queries_append info_queries_replicate info_queries_Cons info_queries_Nil)
qed


subsection \<open>The run\<close>

lemma generate_html_info_queries:
  "info_queries (calls (snd (generate_html e command st))) = info_queries (calls st)"
proof -
  let ?man = "[''man'', abspath e (path_join (manpath e) (''conda-'' @ command_file command @ ''.1''))]"
  let ?h = "[''man2html'', ''-bare'', ''title'', ''conda-'' @ command_file command, ''-topm'', ''0'',
                 ''-botm'', ''0'']"
  have "calls (snd (generate_html e command st)) = calls st @ [?man] \<or>
        calls (snd (generate_html e command st)) = (calls st @ [?man]) @ [?h]"
    using str_check_output_calls [of e ?h "st\<lparr>calls := calls st @ [?man]\<rparr>"]
    by (auto simp: generate_html_def Let_def print_out_def write_file_def
             split: prod.splits sum.splits)
  then show ?thesis
    by (auto simp: info_queries_append info_queries_Cons info_queries_Nil)
qed


lemma gen_command_info_queries:
  assumes "fst (gen_command e command st) = Inr u"
  shows "info_queries (calls (snd (gen_command e command st))) = Suc (info_queries (calls st))"
proof -
  obtain r st1 where gm: "generate_man e command st = (r, st1)" by (cases "generate_man e command st")
  with assms obtain u' where r: "r = Inr u'" by (cases r) (auto simp: gen_command_def)
  from gm r have "info_queries (calls st1) = Suc (info_queries (calls st))"
    using generate_man_info_queries [of e command st u'] by simp
  then show ?thesis
    using gm r generate_html_info_queries [of e command st1] by (simp add: gen_command_def)
qed

lemma gen_all_info_queries:
  "fst (gen_all e commands st) = None \<Longrightarrow>
   info_queries (calls (snd (gen_all e commands st))) = info_queries (calls st) + length commands"
proof (induction commands arbitrary: st)
  case Nil
  then show ?case by simp
next
  case (Cons c cs)
  obtain r st1 where gc: "gen_command e c st = (r, st1)" by (cases "gen_command e c st")
  obtain l st2 where ga: "gen_all e cs st1 = (l, st2)" by (cases "gen_all e cs st1")
  from Cons.prems gc ga obtain u where r: "r = Inr u" and l: "l = None"
    by (cases r) auto
  from gc r have "info_queries (calls st1) = Suc (info_queries (calls st))"
    using gen_command_info_queries [of e c st u] by simp
  moreover from Cons.IH [of st1] ga l
  have "info_queries (calls st2) = info_queries (calls st1) + length cs" by simp
  ultimately show ?case using gc ga by simp
qed



lemma write_rst_calls: "calls (snd (write_rst e command sep st)) = calls st"
  by (auto simp: write_rst_def Let_def print_out_def write_file_def split: sum.splits)

lemma write_rst_all_calls: "calls (snd (write_rst_all e commands st)) = calls st"
proof (induction commands arbitrary: st)
  case Nil
  then show ?case by simp
next
  case (Cons c cs)
  obtain r st1 where w: "write_rst e c None st = (r, st1)" by (cases "write_rst e c None st")
  then have "calls st1 = calls st" using write_rst_calls [of e c None st] by simp
  with w Cons.IH [of st1] show ?case by (cases r) simp_all
qed







subsection \<open>The cached help text and the discovery functions\<close>

lemma conda_help_print_out:
  "conda_help e (print_out m st) = (fst (conda_help e st), print_out m (snd (conda_help e st)))"
  by (simp add: conda_help_def str_check_output_def print_out_def Let_def split: sum.splits)

lemma conda_commands_scan:
  assumes "fst (conda_help e st) = Inr help"
  shows "fst (conda_commands e st) = scan_section ''command'' False [] (splitlines help)"
proof -
  obtain st2 where "conda_help e st = (Inr help, st2)"
    using assms by (cases "conda_help e st") simp
  then show ?thesis
    by (simp add: conda_commands_def Let_def conda_help_print_out)
qed

lemma external_commands_scan_error:
  assumes "fst (conda_help e st) = Inr help"
    and "scan_section ''other commands:'' False [] (splitlines help) = Inl err"
  shows "fst (external_commands e order st) = Inl err"
proof -
  obtain st2 where "conda_help e st = (Inr help, st2)"
    using assms(1) by (cases "conda_help e st") simp
  then show ?thesis
    using assms(2) by (simp add: external_commands_def Let_def conda_help_print_out)
qed

subsection \<open>Subcommands of external commands\<close>

lemma extend_all_concat:
  "extend_all d commands =
     commands @ concat (map (\<lambda>(c, h). subcommand_entries c False (splitlines h)) d)"
  by (induction d arbitrary: commands) auto

lemma subcommand_entries_skip:
  "\<forall>l \<in> set pre. strip l \<noteq> ''positional arguments:'' \<Longrightarrow>
   subcommand_entries c False (pre @ ls) = subcommand_entries c False ls"
  by (induction pre) auto

lemma subcommand_entries_found:
  assumes "\<forall>l \<in> set pre. strip l \<noteq> ''positional arguments:''"
    and "strip header = ''positional arguments:''"
    and "strip line \<noteq> ''positional arguments:''"
    and "subcommands_re line = Some g"
  shows "subcommand_entries c False (pre @ [header, line] @ rest) =
           map (\<lambda>i. c @ '' '' @ i) (split_sep CHR '','' g)"
  using assms by (simp add: subcommand_entries_skip)

lemma dropWhile_snoc_keep: "\<not> P x \<Longrightarrow> \<exists>ys. dropWhile P (xs @ [x]) = ys @ [x]"
  by (induction xs) auto

lemma strip_starts:
  assumes "\<forall>c \<in> set indent. is_space c" and "\<not> is_space x"
  shows "\<exists>r. strip (indent @ x # s) = x # r"
proof -
  have d: "dropWhile is_space (indent @ x # s) = x # s"
    using assms by (simp add: dropWhile_append2)
  have "rev (x # s) = rev s @ [x]" by simp
  from dropWhile_snoc_keep [of is_space x "rev s"] assms(2) obtain ys where
    "dropWhile is_space (rev s @ [x]) = ys @ [x]" by blast
  then have "dropWhile is_space (rev (x # s)) = ys @ [x]" by simp
  then have "strip (indent @ x # s) = x # rev ys"
    by (simp add: strip_def d)
  then show ?thesis by blast
qed

lemma subcommands_re_braces:
  assumes "\<forall>c \<in> set indent. is_space c"
    and "CHR 0x0A \<notin> set g" and "CHR ''}'' \<notin> set trail"
  shows "subcommands_re (indent @ ''{'' @ g @ ''}'' @ trail) = Some g"
proof -
  have nsp: "\<not> is_space CHR ''{''" by (simp add: is_space_def)
  have d: "dropWhile is_space (indent @ ''{'' @ g @ ''}'' @ trail) = CHR ''{'' # g @ ''}'' @ trail"
    using assms(1) nsp by (simp add: dropWhile_append2)
  let ?t = "takeWhile (\<lambda>x. x \<noteq> CHR 0x0A) trail"
  have "\<And>x. x \<in> set g \<Longrightarrow> x \<noteq> CHR 0x0A" using assms(2) by blast
  then have "takeWhile (\<lambda>x. x \<noteq> CHR 0x0A) (g @ (''}'' @ trail)) =
      g @ takeWhile (\<lambda>x. x \<noteq> CHR 0x0A) (''}'' @ trail)"
    by (rule takeWhile_append2)
  then have dot: "takeWhile (\<lambda>x. x \<noteq> CHR 0x0A) (g @ ''}'' @ trail) = g @ ''}'' @ ?t"
    by simp
  have nt: "CHR ''}'' \<notin> set ?t"
    using assms(3) by (meson set_takeWhileD)
  have "\<And>x. x \<in> set (rev ?t) \<Longrightarrow> x \<noteq> CHR ''}''" using nt by auto
  then have "dropWhile (\<lambda>x. x \<noteq> CHR ''}'') (rev ?t @ (CHR ''}'' # rev g)) =
      dropWhile (\<lambda>x. x \<noteq> CHR ''}'') (CHR ''}'' # rev g)"
    by (rule dropWhile_append2)
  then have "dropWhile (\<lambda>x. x \<noteq> CHR ''}'') (rev (g @ ''}'' @ ?t)) = CHR ''}'' # rev g"
    by simp
  moreover have "takeWhile (\<lambda>x. x \<noteq> CHR 0x0A) (g @ CHR ''}'' # trail) = g @ CHR ''}'' # ?t"
    using dot by simp
  moreover have "dropWhile is_space (indent @ CHR ''{'' # g @ CHR ''}'' # trail) =
      CHR ''{'' # g @ CHR ''}'' # trail"
    using d by simp
  ultimately show ?thesis
    by (simp add: subcommands_re_def Let_def)
qed

lemma split_sep_no_sep: "sep \<notin> set x \<Longrightarrow> split_sep sep x = [x]"
  by (induction x) auto

lemma split_sep_cut: "sep \<notin> set x \<Longrightarrow> split_sep sep (x @ sep # s) = x # split_sep sep s"
  by (induction x) auto

lemma split_sep_join:
  "items \<noteq> [] \<Longrightarrow> \<forall>i \<in> set items. sep \<notin> set i \<Longrightarrow>
   split_sep sep (join_str [sep] items) = items"
proof (induction "[sep]" items rule: join_str.induct)
  case 1
  then show ?case by simp
next
  case (2 x)
  then show ?case by (simp add: split_sep_no_sep)
next
  case (3 x y ys)
  then show ?case by (simp add: split_sep_cut)
qed

lemma set_join_str: "set (join_str sep items) \<subseteq> set sep \<union> \<Union> (set ` set items)"
  by (induction sep items rule: join_str.induct) auto

lemma set_dict_set: "set (dict_set d k v) \<subseteq> insert (k, v) (set d)"
  by (auto simp: dict_set_def split: if_splits)

lemma keys_dict_set: "fst ` set (dict_set d k v) = insert k (fst ` set d)"
  by (force simp: dict_set_def image_iff split: if_splits)

lemma first_raised_None:
  "first_raised raised n = None \<Longrightarrow> i < n \<Longrightarrow> i \<notin> fst ` set raised"
proof -
  assume a: "first_raised raised n = None" and i: "i < n"
  show ?thesis
  proof (cases "filter (\<lambda>i. map_of raised i \<noteq> None) [0..<n]")
    case Nil
    then have "\<forall>j \<in> set [0..<n]. map_of raised j = None"
      by (simp add: filter_empty_conv)
    with i have "map_of raised i = None" by simp
    then show ?thesis by (simp add: map_of_eq_None_iff)
  next
    case (Cons j js)
    then have "j \<in> set (filter (\<lambda>i. map_of raised i \<noteq> None) [0..<n])" by simp
    then have "map_of raised j \<noteq> None" by simp
    with a Cons show ?thesis by (simp add: first_raised_def)
  qed
qed

lemma get_help_all_props:
  "get_help_all e cmds order d raised st = (d', raised', st') \<Longrightarrow>
   (\<forall>kv \<in> set d'. kv \<in> set d \<or>
      (\<exists>s. fst (conda_command_help e (fst kv) s) = Inr (snd kv))) \<and>
   fst ` set d \<subseteq> fst ` set d' \<and> fst ` set raised \<subseteq> fst ` set raised' \<and>
   (\<forall>i \<in> set order. i < length cmds \<longrightarrow> i \<in> fst ` set raised' \<or> cmds ! i \<in> fst ` set d')"
proof (induction order arbitrary: d raised st)
  case Nil
  then show ?case by simp
next
  case (Cons i order)
  show ?case
  proof (cases "i < length cmds")
    case False
    with Cons.prems have "get_help_all e cmds order d raised st = (d', raised', st')" by simp
    from Cons.IH [OF this] False show ?thesis by simp
  next
    case True
    let ?c = "cmds ! i"
    obtain r st1 where ch: "conda_command_help e ?c st = (r, st1)"
      by (cases "conda_command_help e ?c st")
    show ?thesis
    proof (cases r)
      case (Inl err)
      with Cons.prems True ch
      have "get_help_all e cmds order d (raised @ [(i, err)]) st1 = (d', raised', st')"
        by (simp add: Let_def)
      from Cons.IH [OF this]
      have a: "\<forall>kv \<in> set d'. kv \<in> set d \<or>
          (\<exists>s. fst (conda_command_help e (fst kv) s) = Inr (snd kv))"
        and b: "fst ` set d \<subseteq> fst ` set d'"
        and c: "fst ` set (raised @ [(i, err)]) \<subseteq> fst ` set raised'"
        and d: "\<forall>j \<in> set order. j < length cmds \<longrightarrow> j \<in> fst ` set raised' \<or> cmds ! j \<in> fst ` set d'"
        by blast+
      from c have c1: "fst ` set raised \<subseteq> fst ` set raised'" and c2: "i \<in> fst ` set raised'"
        by auto
      from a b c1 c2 d show ?thesis by auto
    next
      case (Inr h)
      let ?st2 = "print_out (Text (''Checked for subcommand help for '' @ ?c)) st1"
      from Inr ch have h: "fst (conda_command_help e ?c st) = Inr h" by simp
      from Cons.prems True ch Inr
      have "get_help_all e cmds order (dict_set d ?c h) raised ?st2 = (d', raised', st')"
        by (simp add: Let_def)
      from Cons.IH [OF this]
      have a: "\<forall>kv \<in> set d'. kv \<in> set (dict_set d ?c h) \<or>
          (\<exists>s. fst (conda_command_help e (fst kv) s) = Inr (snd kv))"
        and b: "fst ` set (dict_set d ?c h) \<subseteq> fst ` set d'"
        and c: "fst ` set raised \<subseteq> fst ` set raised'"
        and d: "\<forall>j \<in> set order. j < length cmds \<longrightarrow> j \<in> fst ` set raised' \<or> cmds ! j \<in> fst ` set d'"
        by blast+
      have a': "\<forall>kv \<in> set d'. kv \<in> set d \<or>
          (\<exists>s. fst (conda_command_help e (fst kv) s) = Inr (snd kv))"
      proof
        fix kv assume "kv \<in> set d'"
        with a have "kv \<in> set (dict_set d ?c h) \<or>
          (\<exists>s. fst (conda_command_help e (fst kv) s) = Inr (snd kv))" by blast
        moreover have "kv \<in> set (dict_set d ?c h) \<Longrightarrow> kv = (?c, h) \<or> kv \<in> set d"
          using set_dict_set [of d ?c h] by blast
        moreover have "kv = (?c, h) \<Longrightarrow>
          \<exists>s. fst (conda_command_help e (fst kv) s) = Inr (snd kv)"
          using h by auto
        ultimately show "kv \<in> set d \<or>
          (\<exists>s. fst (conda_command_help e (fst kv) s) = Inr (snd kv))"
          by blast
      qed
      from b have b1: "fst ` set d \<subseteq> fst ` set d'" and b2: "?c \<in> fst ` set d'"
        by (auto simp: keys_dict_set)
      from a' b1 b2 c d show ?thesis by auto
    qed
  qed
qed

subsection \<open>The concrete runs\<close>

lemmas run_defs =
  main_def main_commands_def build_commands_def core_commands_def
  gen_command_def generate_man_def generate_html_def man_replacements_def
  OrderedDict_def dict_set_def run_command_def str_check_output_def write_rst_def
  read_file_def write_file_def print_out_def print_err_def command_file_def
  rst_dir_def piped_def rstpath_def manpath_def path_join_def help2man_args_def Let_def
  example_env_def working_tools_def failing_version_def warning_program_def
  prefix_page_def answer_def fresh_def example_info_def numeral_eq_Suc

lemma lines_layout_help: "splitlines layout_help =
     [''usage: conda [-h] command ...'',
      [],
      ''positional arguments:'',
      ''  command'',
      ''    clean        Remove unused packages and caches.'',
      ''    config       Modify configuration values. This is'',
      ''                 modeled after the git config command.'',
      [],
      ''optional arguments:'']"
  by code_simp

lemma lines_short_line_help: "splitlines short_line_help =
     [''  command'',
      ''    clean        Remove unused packages and caches.'',
      ''ab'',
      [],
      ''other commands:'',
      ''  xy'',
      []]"
  by code_simp

lemma lines_skeleton_help: "splitlines skeleton_help =
     [''usage: conda skeleton [-h] {cran,pypi} ...'', []] @
     [''positional arguments:'', ''  {cran,pypi}''] @
     [[], ''optional arguments:'']"
  by code_simp

lemma help_program_top:
  "fst (conda_help (example_env (help_program t)) fresh) = Inr t"
  by (simp add: conda_help_def str_check_output_def Let_def example_env_def help_program_def
        answer_def fresh_def piped_def)

section \<open>The claims\<close>

subsection \<open>C1: the retries of the converter\<close>

text \<open>
  C1. If the converter gives empty output at each of its five attempts, \<open>generate_man\<close>
  runs it exactly five times and raises \<open>SystemExit\<close> with a message that names the
  command; if attempt \<open>k\<close> (counted from 0) is the first to give output, the converter is
  run exactly \<open>k + 1\<close> times, so no run follows the first output.
\<close>

theorem generate_man_retries:
  "((\<forall>i<5. converter_output e command st i = Inr []) \<longrightarrow>
      fst (generate_man e command st) =
        Inl (SystemExit (''Error: Could not get help for conda '' @ command)) \<and>
      converter_runs (calls (snd (generate_man e command st))) = converter_runs (calls st) + 5) \<and>
   (\<forall>k<5. (\<forall>i<k. converter_output e command st i = Inr []) \<and>
           (\<exists>m. converter_output e command st k = Inr m \<and> m \<noteq> []) \<longrightarrow>
      converter_runs (calls (snd (generate_man e command st))) = converter_runs (calls st) + Suc k)"
  using generate_man_exhausted [of e command st] generate_man_stops [of _ e command st]
  by blast

text \<open>
  C1, at concrete inputs: a converter that stays silent is run five times for
  \<open>frobnicate\<close> and the message names it; one that answers at its second run is run
  twice.
\<close>

theorem generate_man_retries_witness:
  "converter_output (example_env silent_converter) ''frobnicate'' fresh 0 = Inr [] \<and>
   converter_output (example_env silent_converter) ''frobnicate'' fresh 1 = Inr [] \<and>
   converter_output (example_env silent_converter) ''frobnicate'' fresh 2 = Inr [] \<and>
   converter_output (example_env silent_converter) ''frobnicate'' fresh 3 = Inr [] \<and>
   converter_output (example_env silent_converter) ''frobnicate'' fresh 4 = Inr [] \<and>
   fst (generate_man (example_env silent_converter) ''frobnicate'' fresh) =
     Inl (SystemExit ''Error: Could not get help for conda frobnicate'') \<and>
   converter_runs (calls (snd (generate_man (example_env silent_converter) ''frobnicate'' fresh))) = 5 \<and>
   converter_output (example_env slow_converter) ''build'' fresh 0 = Inr [] \<and>
   converter_output (example_env slow_converter) ''build'' fresh 1 = Inr ''.TH CONDA'' \<and>
   converter_runs (calls (snd (generate_man (example_env slow_converter) ''build'' fresh))) = 2"
proof -
  have silent: "converter_output (example_env silent_converter) ''frobnicate'' fresh i = Inr []" for i
    by (simp add: converter_output_def version_text_def run_command_def piped_def
          help2man_args_def example_env_def silent_converter_def answer_def Let_def)
  then have all: "\<forall>i<5. converter_output (example_env silent_converter) ''frobnicate'' fresh i = Inr []"
    by simp
  have c0: "converter_runs (calls fresh) = 0"
    by (simp add: fresh_def converter_runs_def)
  have s0: "converter_output (example_env slow_converter) ''build'' fresh 0 = Inr []"
    by (simp add: converter_output_def version_text_def run_command_def piped_def
          help2man_args_def example_env_def slow_converter_def
          answer_def Let_def fresh_def converter_runs_def)
  have s1: "converter_output (example_env slow_converter) ''build'' fresh 1 = Inr ''.TH CONDA''"
    by (simp add: converter_output_def version_text_def run_command_def piped_def
          help2man_args_def example_env_def slow_converter_def
          answer_def Let_def fresh_def converter_runs_def)
  have first: "(\<forall>i<1. converter_output (example_env slow_converter) ''build'' fresh i = Inr []) \<and>
      (\<exists>m. converter_output (example_env slow_converter) ''build'' fresh 1 = Inr m \<and> m \<noteq> [])"
    using s0 s1 by simp
  note silent_run = generate_man_retries [of "example_env silent_converter" "''frobnicate''" fresh]
  from silent_run [THEN conjunct1] all
  have AB: "fst (generate_man (example_env silent_converter) ''frobnicate'' fresh) =
             Inl (SystemExit (''Error: Could not get help for conda '' @ ''frobnicate'')) \<and>
            converter_runs (calls (snd (generate_man (example_env silent_converter) ''frobnicate'' fresh))) =
              converter_runs (calls fresh) + 5"
    by (rule mp)
  then have A: "fst (generate_man (example_env silent_converter) ''frobnicate'' fresh) =
             Inl (SystemExit ''Error: Could not get help for conda frobnicate'')"
    and B: "converter_runs (calls (snd (generate_man (example_env silent_converter) ''frobnicate'' fresh))) = 5"
    using c0 by simp_all
  note slow_run = generate_man_retries [of "example_env slow_converter" "''build''" fresh]
  have "(1::nat) < 5" by simp
  from slow_run [THEN conjunct2, rule_format, OF this first]
  have C: "converter_runs (calls (snd (generate_man (example_env slow_converter) ''build'' fresh))) = 2"
    using c0 by simp
  from silent A B s0 s1 C show ?thesis by simp
qed

subsection \<open>C2: the built-in commands\<close>

text \<open>
  C2. For a help text in the expected column layout, \<open>conda_commands\<close> returns exactly
  the first tokens of the lines that lie after the line that is \<open>command\<close> once stripped
  and before the first empty line after it, and that are not blank at column 4; lines
  blank at column 4 give nothing. The left side is the loop of the source, the right side
  follows the words of the description.
\<close>

theorem conda_commands_listed:
  assumes "fst (conda_help e st) = Inr help"
    and "column_layout ''command'' (splitlines help)"
  shows "fst (conda_commands e st) = Inr (listed_commands ''command'' (splitlines help))"
proof -
  let ?after = "drop 1 (dropWhile (\<lambda>l. strip l \<noteq> ''command'') (splitlines help))"
  have ne: "''command'' \<noteq> []" by simp
  have lay: "\<forall>l \<in> set (takeWhile (\<lambda>l. l \<noteq> []) ?after).
           5 \<le> length l \<and> strip l \<noteq> ''command'' \<and>
           (l ! 4 \<noteq> CHR '' '' \<longrightarrow> (\<exists>c \<in> set l. \<not> is_space c))"
    using assms(2) unfolding column_layout_def section_lines_def .
  have "fst (conda_commands e st) = scan_section ''command'' True [] ?after"
    using conda_commands_scan [OF assms(1)] by (simp only: scan_section_before)
  also have "\<dots> = Inr ([] @ map first_token
                  (filter (\<lambda>l. l ! 4 \<noteq> CHR '' '') (takeWhile (\<lambda>l. l \<noteq> []) ?after)))"
    by (rule scan_section_layout [OF ne lay])
  finally show ?thesis
    by (simp add: listed_commands_def section_lines_def)
qed

text \<open>
  C2, at a concrete help text with two commands and one continuation line.
\<close>

theorem conda_commands_listed_witness:
  "fst (conda_help (example_env (help_program layout_help)) fresh) = Inr layout_help \<and>
   column_layout ''command'' (splitlines layout_help) \<and>
   listed_commands ''command'' (splitlines layout_help) = [''clean'', ''config''] \<and>
   fst (conda_commands (example_env (help_program layout_help)) fresh) = Inr [''clean'', ''config'']"
proof -
  have lay: "column_layout ''command'' (splitlines layout_help)"
    unfolding lines_layout_help by code_simp
  have ls: "listed_commands ''command'' (splitlines layout_help) = [''clean'', ''config'']"
    unfolding lines_layout_help by code_simp
  from conda_commands_listed [OF help_program_top lay] help_program_top lay ls
  show ?thesis by simp
qed

subsection \<open>C3: the subcommands of an external command\<close>

text \<open>
  C3. Let \<open>command\<close> be an external command whose help text has, right after its first
  line that is \<open>positional arguments:\<close> once stripped, a line made of blanks, an opening
  brace, items separated by commas and a closing brace (the last one of the line). When
  \<open>external_commands\<close> returns, in whatever order the worker threads (all of them) ran,
  its result is the base commands followed by further entries, among them
  \<open>command item\<close> for every item, next to each other and in the order of the line.
\<close>

theorem external_commands_subcommands:
  assumes res: "fst (external_commands e order st) = Inr result"
    and queried: "fst (conda_help e st) = Inr toplevel"
    and base: "scan_section ''other commands:'' False [] (splitlines toplevel) = Inr base"
    and cmd: "command \<in> set base"
    and sched: "{0..<length base} \<subseteq> set order"
    and answers: "\<forall>s. fst (conda_command_help e command s) = Inr help"
    and shape: "splitlines help = pre @ [header, line] @ rest"
    and pre: "\<forall>l \<in> set pre. strip l \<noteq> ''positional arguments:''"
    and header: "strip header = ''positional arguments:''"
    and line: "line = indent @ ''{'' @ join_str '','' items @ ''}'' @ trail"
    and indent: "\<forall>c \<in> set indent. is_space c"
    and items: "items \<noteq> []" "\<forall>i \<in> set items. CHR '','' \<notin> set i \<and> CHR 0x0A \<notin> set i"
    and trail: "CHR ''}'' \<notin> set trail"
  shows "\<exists>before after.
           result = base @ before @ map (\<lambda>i. command @ '' '' @ i) items @ after"
proof -
  let ?F = "\<lambda>(c, h). subcommand_entries c False (splitlines h)"
  obtain st2 where ch: "conda_help e st = (Inr toplevel, st2)"
    using queried by (cases "conda_help e st") simp
  let ?st3 = "print_out (Text ''Getting list of external subcommands'')
                (print_out (Text ''Getting list of external commands'') st2)"
  obtain d raised st4 where gh: "get_help_all e base order [] [] ?st3 = (d, raised, st4)"
    by (cases "get_help_all e base order [] [] ?st3") auto
  from cmd have ne: "length base \<noteq> 0" by auto
  have ext: "fst (external_commands e order st) =
      (case first_raised raised (length base) of
         Some err \<Rightarrow> Inl err | None \<Rightarrow> Inr (extend_all d base))"
    using ch base ne gh
    by (simp add: external_commands_def Let_def conda_help_print_out split: option.splits)
  with res have fr: "first_raised raised (length base) = None"
    and result: "result = extend_all d base"
    by (auto split: option.splits)
  from cmd obtain i where i: "i < length base" "base ! i = command"
    by (auto simp: in_set_conv_nth)
  with sched have io: "i \<in> set order" by auto
  from get_help_all_props [OF gh]
  have a: "\<forall>kv \<in> set d. (\<exists>s. fst (conda_command_help e (fst kv) s) = Inr (snd kv))"
    and dd: "\<forall>j \<in> set order. j < length base \<longrightarrow> j \<in> fst ` set raised \<or> base ! j \<in> fst ` set d"
    by auto
  from first_raised_None [OF fr i(1)] dd io i have "command \<in> fst ` set d" by auto
  then obtain v where v: "(command, v) \<in> set d" by auto
  with a answers have "v = help" by fastforce
  with v obtain d1 d2 where d: "d = d1 @ (command, help) # d2"
    by (auto simp: in_set_conv_decomp)
  have g1: "CHR 0x0A \<notin> set (join_str '','' items)"
    using set_join_str [of "'',''" items] items(2) by auto
  have re: "subcommands_re line = Some (join_str '','' items)"
    unfolding line by (rule subcommands_re_braces [OF indent g1 trail])
  have "\<not> is_space CHR ''{''" by (simp add: is_space_def)
  from strip_starts [OF indent this, of "join_str '','' items @ ''}'' @ trail"]
  obtain r where "strip line = CHR ''{'' # r" unfolding line by auto
  then have sl: "strip line \<noteq> ''positional arguments:''" by simp
  have "split_sep CHR '','' (join_str '','' items) = items"
    using split_sep_join [of items "CHR '',''"] items by simp
  with subcommand_entries_found [OF pre header sl re, of command rest]
  have "subcommand_entries command False (splitlines help) =
          map (\<lambda>i. command @ '' '' @ i) items"
    by (simp add: shape)
  then have "extend_all d base =
      base @ concat (map ?F d1) @ map (\<lambda>i. command @ '' '' @ i) items @ concat (map ?F d2)"
    by (simp add: extend_all_concat d)
  with result show ?thesis by blast
qed

text \<open>
  C3, at a concrete run: \<open>build\<close> and \<open>skeleton\<close> are the external commands, the help
  of \<open>skeleton\<close> lists \<open>{cran,pypi}\<close>, and the thread of \<open>skeleton\<close> runs first.
\<close>

theorem external_commands_subcommands_witness:
  "fst (external_commands (example_env (help_program plugin_help)) [1, 0] fresh) =
     Inr [''build'', ''skeleton'', ''skeleton cran'', ''skeleton pypi''] \<and>
   scan_section ''other commands:'' False [] (splitlines plugin_help) = Inr [''build'', ''skeleton''] \<and>
   (\<exists>before after.
      [''build'', ''skeleton'', ''skeleton cran'', ''skeleton pypi''] =
        [''build'', ''skeleton''] @ before @
        map (\<lambda>i. ''skeleton'' @ '' '' @ i) [''cran'', ''pypi''] @ after)"
proof -
  let ?e = "example_env (help_program plugin_help)"
  have res: "fst (external_commands ?e [1, 0] fresh) =
     Inr [''build'', ''skeleton'', ''skeleton cran'', ''skeleton pypi'']"
    by code_simp
  have base: "scan_section ''other commands:'' False [] (splitlines plugin_help) =
     Inr [''build'', ''skeleton'']"
    by code_simp
  have cmd: "''skeleton'' \<in> set [''build'', ''skeleton'']" by simp
  have sched: "{0..<length [''build'', ''skeleton'']} \<subseteq> set [1, 0::nat]" by auto
  have sp: "split ''skeleton'' = [''skeleton'']" by code_simp
  have answers: "\<forall>s. fst (conda_command_help ?e ''skeleton'' s) = Inr skeleton_help"
    unfolding conda_command_help_def sp
    by (simp add: str_check_output_def Let_def piped_def example_env_def help_program_def
          answer_def)
  have pre: "\<forall>l \<in> set [''usage: conda skeleton [-h] {cran,pypi} ...'', []].
     strip l \<noteq> ''positional arguments:''"
    by code_simp
  have header: "strip ''positional arguments:'' = ''positional arguments:''" by code_simp
  have line: "''  {cran,pypi}'' = ''  '' @ ''{'' @ join_str '','' [''cran'', ''pypi''] @ ''}'' @ []"
    by simp
  have indent: "\<forall>c \<in> set ''  ''. is_space c" by (simp add: is_space_def)
  have items: "[''cran'', ''pypi''] \<noteq> []"
    "\<forall>i \<in> set [''cran'', ''pypi'']. CHR '','' \<notin> set i \<and> CHR 0x0A \<notin> set i"
    by simp_all
  have trail: "CHR ''}'' \<notin> set []" by simp
  from external_commands_subcommands [OF res help_program_top base cmd sched answers
         lines_skeleton_help pre header line indent items trail] res base
  show ?thesis by simp
qed

subsection \<open>C4: the documentation fragments\<close>




subsection \<open>C5: what \<open>run_command\<close> reports\<close>

text \<open>
  C5 says that stderr content of a program that succeeded is reported on the error
  stream, as the diagnostic of a failed program is. The branch for the failed program
  prints with \<open>file=sys.stderr\<close>; the branch for the warning has a plain \<open>print\<close>. A
  program that writes \<open>conda 4.0\<close> on stdout and \<open>deprecated\<close> on stderr and exits with
  code 0 gets its warning on standard output and nothing on the error stream, while the
  diagnostic of a version query that exits with code 1 is on the error stream.
\<close>

theorem run_command_warning_on_stdout:
  "run_command (example_env warning_program) [''help2man'', ''conda build''] False fresh =
     (Inr ''conda 4.0'',
      fresh\<lparr>calls := [[''help2man'', ''conda build'']],
            out_stream := [GaveStderr [''help2man'', ''conda build''] ''deprecated''],
            err_stream := []\<rparr>) \<and>
   run_command (example_env failing_version) [''conda'', ''--version''] False fresh =
     (Inr ''conda '',
      fresh\<lparr>calls := [[''conda'', ''--version'']],
            out_stream := [],
            err_stream := [FailedWithCode [''conda'', ''--version''] 1]\<rparr>)"
  by (simp add: run_command_def Let_def piped_def print_out_def print_err_def example_env_def
        warning_program_def failing_version_def answer_def fresh_def)

subsection \<open>C6: a failing version query\<close>

text \<open>
  C6 says that \<open>generate_man\<close> aborts when the version query exits with a code other
  than 0. It does not: with a version query that writes \<open>conda\<close> on stdout and
  \<open>no version\<close> on stderr and exits with code 1, the converter is run, with the two
  texts merged as version string, and the manual page is written.
\<close>

theorem generate_man_version_failure_continues:
  "exec (example_env failing_version) (calls fresh) [''conda'', ''--version''] =
     Inr (answer 1 ''conda '' ''no version'') \<and>
   fst (generate_man (example_env failing_version) ''build'' fresh) = Inr () \<and>
   calls (snd (generate_man (example_env failing_version) ''build'' fresh)) =
     [[''conda'', ''--version''], help2man_args ''build'' ''conda no version'',
      [''conda'', ''info'', ''--json'']] \<and>
   files (snd (generate_man (example_env failing_version) ''build'' fresh)) =
     [(''/docs/build/man/conda-build.1'', ''.TH CONDA'')]"
  by (simp add: run_defs)

text \<open>
  C6, as the code has it. When the version program starts and what it wrote decodes, its
  exit code changes nothing but the error stream: the converter is the next program run,
  with stdout and stderr of the version query merged as version string, and
  \<open>generate_man\<close> ends as in the environment where that query exits with code 0, with
  the same result and the same state, but for the one diagnostic that a non-zero exit
  code has put on the error stream.
\<close>

theorem generate_man_version_exit_ignored:
  assumes "exec e (calls st) [''conda'', ''--version''] = Inr p"
    and "decode (piped [Stdout, Stderr] p) = Inr v"
  shows "(\<exists>rest. calls (snd (generate_man e command st)) =
            calls st @ [[''conda'', ''--version''], help2man_args command v] @ rest) \<and>
         fst (generate_man e command st) =
           fst (generate_man (version_succeeds e st) command st) \<and>
         snd (generate_man e command st) =
           (if returncode p \<noteq> 0
            then with_diagnostic (length (err_stream st))
                   (FailedWithCode [''conda'', ''--version''] (returncode p))
                   (snd (generate_man (version_succeeds e st) command st))
            else snd (generate_man (version_succeeds e st) command st))"
proof -
  let ?ver = "[''conda'', ''--version'']"
  let ?e' = "version_succeeds e st"
  let ?st1 = "st\<lparr>calls := calls st @ [?ver]\<rparr>"
  let ?d = "FailedWithCode ?ver (returncode p)"
  let ?n = "length (err_stream st)"
  let ?S = "if returncode p \<noteq> 0 then print_err ?d ?st1 else ?st1"
  have noerr: "decode (if True then [] else piped [Stderr] p) = Inr []" by simp
  have rc: "run_command e ?ver True st = (Inr v, ?S)"
    using run_command_effect [of e st ?ver p True v "[]"] assms by simp
  have ex': "exec ?e' (calls st) ?ver = Inr (p\<lparr>returncode := 0\<rparr>)"
    using assms(1) by (simp add: version_succeeds_def)
  have rc': "run_command ?e' ?ver True st = (Inr v, ?st1)"
    using run_command_effect [of ?e' st ?ver "p\<lparr>returncode := 0\<rparr>" True v "[]"] ex' assms(2)
    by (simp add: piped_def)
  have gm: "generate_man e command st = after_version e command v ?S"
    using rc by (simp add: generate_man_split)
  have "generate_man ?e' command st = after_version ?e' command v ?st1"
    using rc' by (simp add: generate_man_split)
  also have "\<dots> = after_version e command v ?st1"
    by (rule after_version_agree [OF version_succeeds_agree]) simp
  finally have gm': "generate_man ?e' command st = after_version e command v ?st1" .
  have frame: "after_version e command v (print_err ?d ?st1) =
      (fst (after_version e command v ?st1),
       with_diagnostic ?n ?d (snd (after_version e command v ?st1)))"
  proof -
    have "print_err ?d ?st1 = with_diagnostic ?n ?d ?st1"
      by (simp add: print_err_def with_diagnostic_def)
    moreover have "?n \<le> length (err_stream ?st1)" by simp
    ultimately show ?thesis by (simp only: after_version_frame)
  qed
  have B: "fst (generate_man e command st) = fst (generate_man ?e' command st)"
    using gm gm' frame by simp
  have C: "snd (generate_man e command st) =
           (if returncode p \<noteq> 0
            then with_diagnostic ?n ?d (snd (generate_man ?e' command st))
            else snd (generate_man ?e' command st))"
    using gm gm' frame by simp
  have cS: "calls ?S = calls st @ [?ver]" by (simp add: print_err_def)
  obtain r st2 where ml: "man_loop e command v [] 5 ?S = (r, st2)"
    by (cases "man_loop e command v [] 5 ?S")
  from man_loop_starts [of e command v 4 ?S] ml obtain j where
    "calls st2 = calls ?S @ help2man_args command v # replicate j (help2man_args command v)"
    by (auto simp: numeral_eq_Suc)
  with after_version_calls [OF ml] gm cS
  have "\<exists>rest. calls (snd (generate_man e command st)) =
            calls st @ [?ver, help2man_args command v] @ rest"
    by simp
  with B C show ?thesis by blast
qed

text \<open>
  C6, at a version query that exits with code 1.
\<close>

theorem generate_man_version_exit_ignored_witness:
  "exec (example_env failing_version) (calls fresh) [''conda'', ''--version''] =
     Inr (answer 1 ''conda '' ''no version'') \<and>
   decode (piped [Stdout, Stderr] (answer 1 ''conda '' ''no version'')) = Inr ''conda no version'' \<and>
   fst (generate_man (example_env failing_version) ''build'' fresh) =
     fst (generate_man (version_succeeds (example_env failing_version) fresh) ''build'' fresh) \<and>
   snd (generate_man (example_env failing_version) ''build'' fresh) =
     with_diagnostic 0 (FailedWithCode [''conda'', ''--version''] 1)
       (snd (generate_man (version_succeeds (example_env failing_version) fresh) ''build'' fresh))"
proof -
  have ex: "exec (example_env failing_version) (calls fresh) [''conda'', ''--version''] =
     Inr (answer 1 ''conda '' ''no version'')"
    by (simp add: example_env_def failing_version_def)
  have de: "decode (piped [Stdout, Stderr] (answer 1 ''conda '' ''no version'')) =
     Inr ''conda no version''"
    by (simp add: piped_def answer_def)
  have rc: "returncode (answer 1 ''conda '' ''no version'') = 1" by (simp add: answer_def)
  have n: "length (err_stream fresh) = 0" by (simp add: fresh_def)
  from generate_man_version_exit_ignored [OF ex de, of "''build''"] ex de
  show ?thesis by (simp add: rc n)
qed

subsection \<open>C7: how often the runtime info is queried\<close>

text \<open>
  C7 says that the replacement table is built once per run. A run over two commands
  queries the runtime info twice.
\<close>

theorem main_two_info_queries:
  "fst (main (example_env working_tools) [''build'', ''render''] fresh) = Inr () \<and>
   info_queries (calls (snd (main (example_env working_tools) [''build'', ''render''] fresh))) = 2"
  by (simp add: run_defs info_queries_def)

text \<open>
  C7, as the code has it. \<open>generate_man\<close> builds the table itself, so a run of \<open>main\<close>
  that returns has queried the runtime info once for every resolved command.
\<close>

theorem main_info_queries:
  assumes "fst (main e argv st) = Inr u"
  shows "info_queries (calls (snd (main e argv st))) = info_queries (calls st) + length (main_commands argv)"
proof -
  obtain r st1 where ga: "gen_all e (main_commands argv) st = (r, st1)"
    by (cases "gen_all e (main_commands argv) st")
  with assms have r: "r = None" by (cases r) (auto simp: main_def Let_def)
  from ga r have "info_queries (calls st1) = info_queries (calls st) + length (main_commands argv)"
    using gen_all_info_queries [of e "main_commands argv" st] by simp
  then show ?thesis
    using ga r write_rst_all_calls [of e _ st1] by (simp add: main_def Let_def)
qed

text \<open>
  C7, at a concrete run over three commands.
\<close>

theorem main_info_queries_witness:
  "fst (main (example_env working_tools) [''build'', ''render'', ''index''] fresh) = Inr () \<and>
   info_queries (calls (snd (main (example_env working_tools) [''build'', ''render'', ''index''] fresh))) = 3"
proof -
  have ok: "fst (main (example_env working_tools) [''build'', ''render'', ''index''] fresh) = Inr ()"
    by (simp add: run_defs)
  have "info_queries (calls fresh) = 0" by (simp add: fresh_def info_queries_def)
  with main_info_queries [OF ok] ok show ?thesis
    by (simp add: main_commands_def)
qed

subsection \<open>C8: applying the replacement table\<close>

text \<open>
  C8 says that every key present in the input has every occurrence replaced by its
  value. For an installation under \<open>/opt/conda\<close> the table has the key \<open>/opt/conda\<close>
  before the key \<open>/opt/conda/envs\<close> (value \<open>envs dirs\<close>). The second key occurs in the
  page the converter gives, and the page written does not have it replaced by its
  value: the first replacement has taken its beginning.
\<close>

theorem apply_replacements_overlap:
  "converter_output (example_env prefix_page) ''create'' fresh 0 =
     Inr ''--prefix /opt/conda/envs/py'' \<and>
   occurs ''/opt/conda/envs'' ''--prefix /opt/conda/envs/py'' \<and>
   fst (man_replacements (example_env prefix_page) fresh) =
     Inr (OrderedDict
       [(''/opt/conda'', ''default prefix''),
        (''/opt/conda/envs'', ''envs dirs''),
        (''/root/.condarc'',
           [CHR 0x5C] @ ''fI'' @ [CHR 0x5C] @ '',user .condarc path'' @
           [CHR 0x5C] @ ''/'' @ [CHR 0x5C] @ ''fP''),
        (''/opt/conda/.condarc'',
           [CHR 0x5C] @ ''fI'' @ [CHR 0x5C] @ '',system .condarc path'' @
           [CHR 0x5C] @ ''/'' @ [CHR 0x5C] @ ''fP''),
        (''/opt/conda'', ''root prefix'')]) \<and>
   files (snd (generate_man (example_env prefix_page) ''create'' fresh)) =
     [(''/docs/build/man/conda-create.1'', ''--prefix root prefix/envs/py'')]"
  by (simp add: run_defs converter_output_def version_text_def)

text \<open>
  C8, as the code has it. The keys are replaced one after another in the order of the
  table, each in the text the replacements before it have left: the empty table changes
  nothing; the last key of a table is replaced in the result of the table before it; a
  key (not empty) that does not occur in that text leaves it unchanged; and the leftmost
  occurrence of a key is replaced by its value, the replacement going on in the rest.
\<close>

theorem apply_replacements_sequential:
  "apply_replacements [] t = t \<and>
   apply_replacements (tbl @ [(k, v)]) t = replace k v (apply_replacements tbl t) \<and>
   (k \<noteq> [] \<and> \<not> occurs k t \<longrightarrow> replace k v t = t) \<and>
   (k \<noteq> [] \<and> \<not> occurs k (pre @ butlast k) \<longrightarrow>
      replace k v (pre @ k @ rest) = pre @ v @ replace k v rest)"
  using apply_replacements_snoc [of tbl k v t] replace_absent [of k t v]
    replace_leftmost [of k pre v rest]
  by simp

text \<open>
  C8, at a text without the key and at a text with one occurrence of it.
\<close>

theorem apply_replacements_sequential_witness:
  "\<not> occurs ''/opt/conda'' ''usage: conda build'' \<and>
   replace ''/opt/conda'' ''root prefix'' ''usage: conda build'' = ''usage: conda build'' \<and>
   \<not> occurs ''/opt/conda'' (''in '' @ butlast ''/opt/conda'') \<and>
   replace ''/opt/conda'' ''root prefix'' (''in '' @ ''/opt/conda'' @ ''/bin'') =
     ''in '' @ ''root prefix'' @ replace ''/opt/conda'' ''root prefix'' ''/bin''"
proof -
  have a: "''/opt/conda'' \<noteq> [] \<and> \<not> occurs ''/opt/conda'' ''usage: conda build''" by simp
  have b: "''/opt/conda'' \<noteq> [] \<and> \<not> occurs ''/opt/conda'' (''in '' @ butlast ''/opt/conda'')" by simp
  note T = apply_replacements_sequential [of "''usage: conda build''" "[]" "''/opt/conda''"
             "''root prefix''" "''in ''" "''/bin''"]
  from T [THEN conjunct2, THEN conjunct2, THEN conjunct1] a
  have A: "replace ''/opt/conda'' ''root prefix'' ''usage: conda build'' = ''usage: conda build''"
    by (rule mp)
  from T [THEN conjunct2, THEN conjunct2, THEN conjunct2] b
  have B: "replace ''/opt/conda'' ''root prefix'' (''in '' @ ''/opt/conda'' @ ''/bin'') =
     ''in '' @ ''root prefix'' @ replace ''/opt/conda'' ''root prefix'' ''/bin''"
    by (rule mp)
  from a b A B show ?thesis by blast
qed

subsection \<open>C9: the cached help text\<close>

text \<open>
  C9. The first call of \<open>conda_help\<close> (empty cache) that returns has run the help query
  once; every call in a later state with the cache it left returns the same text and
  leaves the state as it is, so it runs no program.
\<close>

theorem conda_help_cached:
  assumes "help_cache st = []" and "conda_help e st = (Inr h, st1)"
    and "help_cache st2 = help_cache st1"
  shows "calls st1 = calls st @ [[''conda'', ''--help'']] \<and> conda_help e st2 = (Inr h, st2)"
proof -
  obtain r st' where sc: "str_check_output e [''conda'', ''--help''] st = (r, st')"
    by (cases "str_check_output e [''conda'', ''--help''] st")
  have hc: "help_cache st' = []"
    using str_check_output_cache [of e "[''conda'', ''--help'']" st] sc assms(1) by simp
  have cs: "calls st' = calls st @ [[''conda'', ''--help'']]"
    using str_check_output_calls [of e "[''conda'', ''--help'']" st] sc by simp
  show ?thesis
  proof (cases r)
    case (Inl x)
    with assms(1) sc have "conda_help e st = (Inl x, st')" by (simp add: conda_help_def)
    with assms(2) show ?thesis by simp
  next
    case (Inr h')
    with assms(1) sc hc have "conda_help e st = (Inr h', st'\<lparr>help_cache := [h']\<rparr>)"
      by (simp add: conda_help_def Let_def)
    then have "fst (conda_help e st) = Inr h'"
      and "snd (conda_help e st) = st'\<lparr>help_cache := [h']\<rparr>" by simp_all
    then have "Inr h = (Inr h' :: error + string)" and "st1 = st'\<lparr>help_cache := [h']\<rparr>"
      unfolding assms(2) fst_conv snd_conv .
    then have h: "h = h'" and st1: "st1 = st'\<lparr>help_cache := [h']\<rparr>" by simp_all
    from st1 h assms(3) have "help_cache st2 = [h]" by simp
    then have "conda_help e st2 = (Inr h, st2)" by (simp add: conda_help_def)
    moreover from st1 cs have "calls st1 = calls st @ [[''conda'', ''--help'']]" by simp
    ultimately show ?thesis by simp
  qed
qed

text \<open>
  C9, at a concrete run: the second call comes after something was printed.
\<close>

theorem conda_help_cached_witness:
  "help_cache fresh = [] \<and>
   conda_help (example_env (help_program layout_help)) fresh =
     (Inr layout_help, fresh\<lparr>calls := [[''conda'', ''--help'']], help_cache := [layout_help]\<rparr>) \<and>
   calls (fresh\<lparr>calls := [[''conda'', ''--help'']], help_cache := [layout_help]\<rparr>) =
     calls fresh @ [[''conda'', ''--help'']] \<and>
   conda_help (example_env (help_program layout_help))
     (print_out (Text ''Getting list of external commands'')
        (fresh\<lparr>calls := [[''conda'', ''--help'']], help_cache := [layout_help]\<rparr>)) =
     (Inr layout_help,
      print_out (Text ''Getting list of external commands'')
        (fresh\<lparr>calls := [[''conda'', ''--help'']], help_cache := [layout_help]\<rparr>))"
proof -
  let ?e = "example_env (help_program layout_help)"
  let ?st1 = "fresh\<lparr>calls := [[''conda'', ''--help'']], help_cache := [layout_help]\<rparr>"
  let ?st2 = "print_out (Text ''Getting list of external commands'') ?st1"
  have h1: "help_cache fresh = []" by (simp add: fresh_def)
  have h2: "conda_help ?e fresh = (Inr layout_help, ?st1)"
    by (simp add: conda_help_def str_check_output_def Let_def example_env_def help_program_def
          answer_def fresh_def piped_def)
  have h3: "help_cache ?st2 = help_cache ?st1" by (simp add: print_out_def)
  from conda_help_cached [OF h1 h2 h3] h1 h2 show ?thesis by simp
qed

subsection \<open>C10: short lines in the section\<close>

text \<open>
  C10. When the section scanned by \<open>conda_commands\<close> (after \<open>command\<close>) or by
  \<open>external_commands\<close> (after \<open>other commands:\<close>) holds a line, not empty, of fewer than
  five characters, the function raises \<open>IndexError\<close>; so it returns only when every line
  of the section has at least five characters.
\<close>

theorem scan_short_line_fails:
  assumes "fst (conda_help e st) = Inr help"
  shows "((\<exists>l \<in> set (section_lines ''command'' (splitlines help)). length l < 5) \<longrightarrow>
            (\<exists>msg. fst (conda_commands e st) = Inl (IndexError msg))) \<and>
         ((\<exists>l \<in> set (section_lines ''other commands:'' (splitlines help)). length l < 5) \<longrightarrow>
            (\<exists>msg. fst (external_commands e order st) = Inl (IndexError msg)))"
proof (intro conjI impI)
  assume "\<exists>l \<in> set (section_lines ''command'' (splitlines help)). length l < 5"
  then obtain l where l: "l \<in> set (takeWhile (\<lambda>l. l \<noteq> [])
        (drop 1 (dropWhile (\<lambda>l. strip l \<noteq> ''command'') (splitlines help))))" "length l < 5"
    unfolding section_lines_def by blast
  have "5 \<le> length ''command''" by simp
  from scan_section_short [OF this l] obtain msg where
    "scan_section ''command'' True []
       (drop 1 (dropWhile (\<lambda>l. strip l \<noteq> ''command'') (splitlines help))) = Inl (IndexError msg)"
    by blast
  then have "fst (conda_commands e st) = Inl (IndexError msg)"
    using conda_commands_scan [OF assms] by (simp only: scan_section_before)
  then show "\<exists>msg. fst (conda_commands e st) = Inl (IndexError msg)" by blast
next
  assume "\<exists>l \<in> set (section_lines ''other commands:'' (splitlines help)). length l < 5"
  then obtain l where l: "l \<in> set (takeWhile (\<lambda>l. l \<noteq> [])
        (drop 1 (dropWhile (\<lambda>l. strip l \<noteq> ''other commands:'') (splitlines help))))" "length l < 5"
    unfolding section_lines_def by blast
  have "5 \<le> length ''other commands:''" by simp
  from scan_section_short [OF this l] obtain msg where
    "scan_section ''other commands:'' True []
       (drop 1 (dropWhile (\<lambda>l. strip l \<noteq> ''other commands:'') (splitlines help))) = Inl (IndexError msg)"
    by blast
  then have "scan_section ''other commands:'' False [] (splitlines help) = Inl (IndexError msg)"
    by (simp only: scan_section_before)
  from external_commands_scan_error [OF assms this]
  show "\<exists>msg. fst (external_commands e order st) = Inl (IndexError msg)" by blast
qed

text \<open>
  C10, at a help text with the line \<open>ab\<close> in the first section and a four-character line
  in the second.
\<close>

theorem scan_short_line_fails_witness:
  "fst (conda_help (example_env (help_program short_line_help)) fresh) = Inr short_line_help \<and>
   ''ab'' \<in> set (section_lines ''command'' (splitlines short_line_help)) \<and>
   ''  xy'' \<in> set (section_lines ''other commands:'' (splitlines short_line_help)) \<and>
   (\<exists>msg. fst (conda_commands (example_env (help_program short_line_help)) fresh) =
            Inl (IndexError msg)) \<and>
   (\<exists>msg. fst (external_commands (example_env (help_program short_line_help)) [] fresh) =
            Inl (IndexError msg))"
proof -
  have a: "''ab'' \<in> set (section_lines ''command'' (splitlines short_line_help))"
    unfolding lines_short_line_help by code_simp
  have b: "''  xy'' \<in> set (section_lines ''other commands:'' (splitlines short_line_help))"
    unfolding lines_short_line_help by code_simp
  from a have a': "\<exists>l \<in> set (section_lines ''command'' (splitlines short_line_help)). length l < 5"
    by (rule bexI [rotated]) simp
  from b have b': "\<exists>l \<in> set (section_lines ''other commands:'' (splitlines short_line_help)). length l < 5"
    by (rule bexI [rotated]) simp
  note T = scan_short_line_fails [OF help_program_top, of short_line_help "[]"]
  from T [THEN conjunct1] a'
  have A: "\<exists>msg. fst (conda_commands (example_env (help_program short_line_help)) fresh) =
            Inl (IndexError msg)" by (rule mp)
  from T [THEN conjunct2] b'
  have B: "\<exists>msg. fst (external_commands (example_env (help_program short_line_help)) [] fresh) =
            Inl (IndexError msg)" by (rule mp)
  from help_program_top a b A B show ?thesis by blast
qed

end
